theory Spec2Isabelle
  imports Main "HOL-Library.Word"
begin

section \<open>The route table of babeld (route.c)\<close>

text \<open>
  A shallow embedding of \<^verbatim>\<open>route.c\<close>. A pointer into the array \<^verbatim>\<open>routes[]\<close> is an index
  into the list \<open>routes\<close>, \<^verbatim>\<open>numroutes\<close> is its length, and \<^verbatim>\<open>NULL\<close> is \<open>None\<close>. A pointer to
  a source is an index into the source table \<open>srcs\<close>, so pointer equality of sources is
  equality of indices. The functions mutate global state; here they take the state and
  return the new one. What the C writes to stderr (\<^verbatim>\<open>fprintf\<close>, \<^verbatim>\<open>perror\<close>, \<^verbatim>\<open>debugf\<close>) is
  not part of the state; what \<^verbatim>\<open>perror\<close> does to \<^verbatim>\<open>errno\<close> is kept, because \<^verbatim>\<open>install_route\<close>
  reads \<^verbatim>\<open>errno\<close> after the call.
\<close>

subsection \<open>Data\<close>

text \<open>A 16-octet address or prefix (compared with \<^verbatim>\<open>memcmp(_, _, 16)\<close>) is a 128-bit word.\<close>

type_synonym address = "128 word"

text \<open>A \<^verbatim>\<open>struct neighbour *\<close> and a \<^verbatim>\<open>struct network *\<close> are handles.\<close>

type_synonym neighbour = nat
type_synonym network = nat

text \<open>
  \<^verbatim>\<open>struct source\<close> is declared in source.h, which is not part of the sources at hand; the
  fields are the ones route.c reads. The seqno and the metric of a source are advertised
  values (unsigned 16-bit).
\<close>

record source =
  src_address :: address
  src_prefix :: address
  src_plen :: "8 word"
  src_seqno :: "16 word"
  src_metric :: "16 word"
  src_time :: int

text \<open>
  \<^verbatim>\<open>struct route\<close> (route.h). The metric is an \<^verbatim>\<open>int\<close> that \<^verbatim>\<open>metric_to_kernel\<close> asserts to be
  non-negative and that the data model keeps within \<open>[0, INFINITY]\<close>: it is a \<open>nat\<close> here, read
  as an \<open>int\<close> wherever the C subtracts. \<open>refmetric\<close> and \<open>seqno\<close> are \<^verbatim>\<open>unsigned short\<close>.
\<close>

record route =
  src :: nat
  metric :: nat
  refmetric :: "16 word"
  seqno :: "16 word"
  neigh :: neighbour
  nexthop :: address
  time :: int
  origtime :: int
  installed :: bool

text \<open>The requests made to the kernel, in the argument order of \<^verbatim>\<open>kernel_route\<close>.\<close>

datatype kernel_op = ROUTE_ADD | ROUTE_FLUSH | ROUTE_MODIFY

datatype kernel_call =
  KernelRoute kernel_op address "8 word" address nat nat "address option" nat nat

text \<open>The messages handed to message.c, with the arguments of the C calls.\<close>

datatype message =
    SendUpdate "neighbour option" bool address "8 word"
  | SendRequestResend address "8 word" "16 word" nat
  | SendRequest "neighbour option" address "8 word" "16 word" nat nat
  | SendUnicastRequest neighbour address "8 word" "16 word" nat nat

text \<open>
  The mutable state: the route table, the source table, and the traces of the kernel
  requests and of the messages sent so far.
\<close>

record state =
  routes :: "route list"
  srcs :: "source list"
  klog :: "kernel_call list"
  msgs :: "message list"

text \<open>
  What route.c reads and never writes: the configuration constants and globals, the clock
  \<^verbatim>\<open>now.tv_sec\<close>, and the collaborators (neighbour table, xroute table, filter, request table).
  \<open>kernel_reply n\<close> is the pair \<open>(rc, errno)\<close> with which the kernel answers the \<open>n\<close>-th request;
  \<open>perror err\<close> is the value of \<^verbatim>\<open>errno\<close> after the C library's \<^verbatim>\<open>perror\<close> has printed the
  message of the error \<open>err\<close> (the library may change \<^verbatim>\<open>errno\<close>, for one when it cannot write
  to \<^verbatim>\<open>stderr\<close>);
  \<open>new_source_metric\<close> and \<open>new_source_time\<close> are the metric and the time that the source
  table gives to a source it creates. The cost of a neighbour and the add-metric of the
  filter are not negative.
\<close>

record env =
  MAXROUTES :: nat
  MAXSRCS :: nat
  KERNEL_INFINITY :: nat
  kernel_metric :: nat
  route_timeout_delay :: int
  route_gc_delay :: int
  now :: int
  neighbour_cost :: "neighbour \<Rightarrow> nat"
  neigh_id :: "neighbour \<Rightarrow> address"
  neigh_network :: "neighbour \<Rightarrow> network"
  net_ifindex :: "network \<Rightarrow> nat"
  find_xroute :: "address \<Rightarrow> 8 word \<Rightarrow> bool"
  martian_prefix :: "address \<Rightarrow> 8 word \<Rightarrow> bool"
  input_filter :: "address \<Rightarrow> address \<Rightarrow> 8 word \<Rightarrow> address \<Rightarrow> nat \<Rightarrow> nat"
  unsatisfied_request :: "address \<Rightarrow> 8 word \<Rightarrow> 16 word \<Rightarrow> nat \<Rightarrow> bool"
  hash_id :: "address \<Rightarrow> nat"
  kernel_reply :: "nat \<Rightarrow> int \<times> int"
  perror :: "int \<Rightarrow> int"
  new_source_metric :: "16 word"
  new_source_time :: int

definition INFINITY :: nat where
  "INFINITY = 65535"

text \<open>The value of \<^verbatim>\<open>EEXIST\<close> in \<^verbatim>\<open>errno.h\<close>.\<close>

definition EEXIST :: int where
  "EEXIST = 17"

definition numroutes :: "state \<Rightarrow> nat" where
  "numroutes s = length (routes s)"

subsection \<open>Collaborators\<close>

text \<open>
  Modelled from the spec: \<^verbatim>\<open>source_match\<close> (source.c is missing). Two sources match the same
  prefix exactly when prefix and prefix length agree.
\<close>

definition source_match :: "source \<Rightarrow> address \<Rightarrow> 8 word \<Rightarrow> bool" where
  "source_match sr p pl = (src_plen sr = pl \<and> src_prefix sr = p)"

text \<open>
  Modelled from the spec: \<^verbatim>\<open>find_source(origin, prefix, plen, create, seqno_hint)\<close> (source.c
  is missing). It returns the source of \<open>(origin, prefix, plen)\<close>; when there is none and
  \<open>create\<close> is set it allocates one, seeded with the seqno hint, and allocation fails when
  the source table is full.
\<close>

definition find_source ::
  "env \<Rightarrow> address \<Rightarrow> address \<Rightarrow> 8 word \<Rightarrow> bool \<Rightarrow> 16 word \<Rightarrow> state \<Rightarrow> nat option \<times> state" where
  "find_source e a p pl create sq s =
     (case find (\<lambda>i. src_address (srcs s ! i) = a \<and> source_match (srcs s ! i) p pl)
             [0..<length (srcs s)] of
        Some i \<Rightarrow> (Some i, s)
      | None \<Rightarrow>
          if \<not> create then (None, s)
          else if MAXSRCS e \<le> length (srcs s) then (None, s)
          else (Some (length (srcs s)),
                s\<lparr>srcs := srcs s @
                   [\<lparr>src_address = a, src_prefix = p, src_plen = pl, src_seqno = sq,
                     src_metric = new_source_metric e, src_time = new_source_time e\<rparr>]\<rparr>))"

text \<open>
  Modelled from the spec: \<^verbatim>\<open>seqno_compare\<close> (util.c is missing). \<open>a > b\<close> in the modular
  16-bit order iff \<open>(a - b) mod 2^16\<close> lies strictly between \<open>0\<close> and \<open>2^15\<close>.
\<close>

definition seqno_compare :: "16 word \<Rightarrow> 16 word \<Rightarrow> int" where
  "seqno_compare a b =
     (if a = b then 0
      else if 0 < unat (a - b) \<and> unat (a - b) < 2 ^ 15 then 1
      else - 1)"

text \<open>Modelled from the spec: \<^verbatim>\<open>seqno_plus\<close> (util.c is missing), addition modulo \<open>2^16\<close>.\<close>

definition seqno_plus :: "16 word \<Rightarrow> 16 word \<Rightarrow> 16 word" where
  "seqno_plus a b = a + b"

text \<open>
  Modelled from the spec: the kernel adapter \<^verbatim>\<open>kernel_route\<close> (kernel.c is missing). The
  request is recorded and the kernel's answer \<open>(rc, errno)\<close> is returned.
\<close>

definition kernel_route :: "env \<Rightarrow> kernel_call \<Rightarrow> state \<Rightarrow> (int \<times> int) \<times> state" where
  "kernel_route e c s = (kernel_reply e (length (klog s)), s\<lparr>klog := klog s @ [c]\<rparr>)"

text \<open>Modelled from the spec: message I/O (message.c is missing) records what is sent.\<close>

definition send_update :: "neighbour option \<Rightarrow> bool \<Rightarrow> address \<Rightarrow> 8 word \<Rightarrow> state \<Rightarrow> state" where
  "send_update n urgent p pl s = s\<lparr>msgs := msgs s @ [SendUpdate n urgent p pl]\<rparr>"

definition send_request_resend :: "address \<Rightarrow> 8 word \<Rightarrow> 16 word \<Rightarrow> nat \<Rightarrow> state \<Rightarrow> state" where
  "send_request_resend p pl sq h s = s\<lparr>msgs := msgs s @ [SendRequestResend p pl sq h]\<rparr>"

definition send_request ::
  "neighbour option \<Rightarrow> address \<Rightarrow> 8 word \<Rightarrow> 16 word \<Rightarrow> nat \<Rightarrow> nat \<Rightarrow> state \<Rightarrow> state" where
  "send_request n p pl sq hop ident s = s\<lparr>msgs := msgs s @ [SendRequest n p pl sq hop ident]\<rparr>"

definition send_unicast_request ::
  "neighbour \<Rightarrow> address \<Rightarrow> 8 word \<Rightarrow> 16 word \<Rightarrow> nat \<Rightarrow> nat \<Rightarrow> state \<Rightarrow> state" where
  "send_unicast_request n p pl sq hop ident s =
     s\<lparr>msgs := msgs s @ [SendUnicastRequest n p pl sq hop ident]\<rparr>"

subsection \<open>Lookup\<close>

definition find_route :: "address \<Rightarrow> 8 word \<Rightarrow> neighbour \<Rightarrow> address \<Rightarrow> state \<Rightarrow> nat option" where
  "find_route p pl n nh s =
     find (\<lambda>i. neigh (routes s ! i) = n \<and> nexthop (routes s ! i) = nh \<and>
               source_match (srcs s ! src (routes s ! i)) p pl)
       [0..<numroutes s]"

definition find_installed_route :: "address \<Rightarrow> 8 word \<Rightarrow> state \<Rightarrow> nat option" where
  "find_installed_route p pl s =
     find (\<lambda>i. installed (routes s ! i) \<and> source_match (srcs s ! src (routes s ! i)) p pl)
       [0..<numroutes s]"

subsection \<open>The kernel's forwarding table\<close>

text \<open>\<^verbatim>\<open>assert(metric >= 0)\<close> holds of every \<open>nat\<close>.\<close>

definition metric_to_kernel :: "env \<Rightarrow> nat \<Rightarrow> nat" where
  "metric_to_kernel e m =
     (if INFINITY \<le> m then KERNEL_INFINITY e
      else min ((m + 255) div 256 + kernel_metric e) (KERNEL_INFINITY e))"

definition route_ifindex :: "env \<Rightarrow> route \<Rightarrow> nat" where
  "route_ifindex e r = net_ifindex e (neigh_network e (neigh r))"

text \<open>
  After a failed \<^verbatim>\<open>ADD\<close> the C calls \<^verbatim>\<open>perror\<close> and then tests \<^verbatim>\<open>errno != EEXIST\<close>: the value
  tested is the one \<^verbatim>\<open>perror\<close> leaves. \<^verbatim>\<open>uninstall_route\<close> and \<^verbatim>\<open>change_route_metric\<close> call
  \<^verbatim>\<open>perror\<close> too and do not read \<^verbatim>\<open>errno\<close> afterwards.
\<close>

definition install_route :: "env \<Rightarrow> nat \<Rightarrow> state \<Rightarrow> state" where
  "install_route e i s =
     (let r = routes s ! i; sr = srcs s ! src r in
      if installed r then s
      else
        let (res, s1) =
              kernel_route e
                (KernelRoute ROUTE_ADD (src_prefix sr) (src_plen sr) (nexthop r)
                   (route_ifindex e r) (metric_to_kernel e (metric r)) None 0 0) s
        in if fst res < 0 \<and> perror e (snd res) \<noteq> EEXIST then s1
           else s1\<lparr>routes := (routes s1)[i := (routes s1 ! i)\<lparr>installed := True\<rparr>]\<rparr>)"

definition uninstall_route :: "env \<Rightarrow> nat \<Rightarrow> state \<Rightarrow> state" where
  "uninstall_route e i s =
     (let r = routes s ! i; sr = srcs s ! src r in
      if \<not> installed r then s
      else
        let (res, s1) =
              kernel_route e
                (KernelRoute ROUTE_FLUSH (src_prefix sr) (src_plen sr) (nexthop r)
                   (route_ifindex e r) (metric_to_kernel e (metric r)) None 0 0) s
        in s1\<lparr>routes := (routes s1)[i := (routes s1 ! i)\<lparr>installed := False\<rparr>]\<rparr>)"

definition change_route :: "env \<Rightarrow> nat option \<Rightarrow> nat \<Rightarrow> state \<Rightarrow> state" where
  "change_route e old new s =
     (case old of
        None \<Rightarrow> install_route e new s
      | Some c \<Rightarrow>
          let ro = routes s ! c; rn = routes s ! new; sr = srcs s ! src ro in
          if \<not> installed ro then s
          else
            let (res, s1) =
                  kernel_route e
                    (KernelRoute ROUTE_MODIFY (src_prefix sr) (src_plen sr) (nexthop ro)
                       (route_ifindex e ro) (metric_to_kernel e (metric ro))
                       (Some (nexthop rn)) (route_ifindex e rn)
                       (metric_to_kernel e (metric rn))) s
            in if 0 \<le> fst res then
                 let s2 = s1\<lparr>routes := (routes s1)[c := (routes s1 ! c)\<lparr>installed := False\<rparr>]\<rparr>
                 in s2\<lparr>routes := (routes s2)[new := (routes s2 ! new)\<lparr>installed := True\<rparr>]\<rparr>
               else s1)"

definition change_route_metric :: "env \<Rightarrow> nat \<Rightarrow> nat \<Rightarrow> state \<Rightarrow> state" where
  "change_route_metric e i newmetric s =
     (let r = routes s ! i; sr = srcs s ! src r in
      if installed r then
        let (res, s1) =
              kernel_route e
                (KernelRoute ROUTE_MODIFY (src_prefix sr) (src_plen sr) (nexthop r)
                   (route_ifindex e r) (metric_to_kernel e (metric r))
                   (Some (nexthop r)) (route_ifindex e r) (metric_to_kernel e newmetric)) s
        in if fst res < 0 then s1
           else s1\<lparr>routes := (routes s1)[i := (routes s1 ! i)\<lparr>metric := newmetric\<rparr>]\<rparr>
      else s\<lparr>routes := (routes s)[i := r\<lparr>metric := newmetric\<rparr>]\<rparr>)"

subsection \<open>Feasibility\<close>

definition update_feasible ::
  "env \<Rightarrow> address \<Rightarrow> address \<Rightarrow> 8 word \<Rightarrow> 16 word \<Rightarrow> 16 word \<Rightarrow> state \<Rightarrow> bool" where
  "update_feasible e a p pl sq rm s =
     (case fst (find_source e a p pl False 0 s) of
        None \<Rightarrow> True
      | Some k \<Rightarrow>
          let sr = srcs s ! k in
          if src_time sr < now e - 200 then True
          else if INFINITY \<le> unat rm then True
          else 0 < seqno_compare sq (src_seqno sr) \<or>
               (src_seqno sr = sq \<and> rm < src_metric sr))"

definition route_feasible :: "env \<Rightarrow> route \<Rightarrow> state \<Rightarrow> bool" where
  "route_feasible e r s =
     update_feasible e (src_address (srcs s ! src r)) (src_prefix (srcs s ! src r))
       (src_plen (srcs s ! src r)) (seqno r) (refmetric r) s"

subsection \<open>Selection\<close>

text \<open>The body of the loop of \<^verbatim>\<open>find_best_route\<close>: \<open>best\<close> is the local \<^verbatim>\<open>route\<close>.\<close>

definition find_best_route_step ::
  "env \<Rightarrow> address \<Rightarrow> 8 word \<Rightarrow> bool \<Rightarrow> neighbour option \<Rightarrow> state \<Rightarrow> nat \<Rightarrow> nat option \<Rightarrow> nat option" where
  "find_best_route_step e p pl feasible exclude s i best =
     (let r = routes s ! i in
      if \<not> source_match (srcs s ! src r) p pl then best
      else if time r < now e - route_timeout_delay e then best
      else if feasible \<and> \<not> route_feasible e r s then best
      else if exclude \<noteq> None \<and> Some (neigh r) = exclude then best
      else if best \<noteq> None \<and> metric (routes s ! the best) \<le> metric r then best
      else Some i)"

definition find_best_route ::
  "env \<Rightarrow> address \<Rightarrow> 8 word \<Rightarrow> bool \<Rightarrow> neighbour option \<Rightarrow> state \<Rightarrow> nat option" where
  "find_best_route e p pl feasible exclude s =
     fold (find_best_route_step e p pl feasible exclude s) [0..<numroutes s] None"

subsection \<open>Requests and triggered updates\<close>

definition resend_seqno :: "source \<Rightarrow> 16 word" where
  "resend_seqno sr =
     (if INFINITY \<le> unat (src_metric sr) then src_seqno sr else seqno_plus (src_seqno sr) 1)"

text \<open>The parameter \<^verbatim>\<open>metric\<close> is an \<^verbatim>\<open>unsigned short\<close>.\<close>

definition send_unfeasible_request ::
  "env \<Rightarrow> nat \<Rightarrow> address \<Rightarrow> address \<Rightarrow> 8 word \<Rightarrow> state \<Rightarrow> state" where
  "send_unfeasible_request e m a p pl s =
     (let m16 = m mod 65536;
          route = find_installed_route p pl s;
          sr = fst (find_source e a p pl False 0 s)
      in case sr of
           None \<Rightarrow> s
         | Some k \<Rightarrow>
             if route = None \<or> m16 + 256 \<le> metric (routes s ! the route) then
               send_request_resend p pl (resend_seqno (srcs s ! k))
                 (hash_id e (src_address (srcs s ! k))) s
             else s)"

definition send_triggered_update :: "env \<Rightarrow> nat \<Rightarrow> nat \<Rightarrow> int \<Rightarrow> state \<Rightarrow> state" where
  "send_triggered_update e i oldsrc oldmetric s =
     (let r = routes s ! i; sr = srcs s ! src r in
      if \<not> installed r then s
      else
        let newmetric = int (metric r);
            urgent1 = (src r \<noteq> oldsrc \<or> (oldmetric < int INFINITY \<and> int INFINITY \<le> newmetric));
            urgent2 = (urgent1 \<or> oldmetric + 512 \<le> newmetric \<or> newmetric + 512 \<le> oldmetric);
            urgent = (urgent2 \<or>
                      unsatisfied_request e (src_prefix sr) (src_plen sr) (seqno r)
                        (hash_id e (src_address sr)));
            s1 = (if urgent \<or> (oldmetric + 256 \<le> newmetric \<or> newmetric + 256 \<le> oldmetric)
                  then send_update None urgent (src_prefix sr) (src_plen sr) s else s)
        in if oldmetric < int INFINITY then
             if int INFINITY \<le> newmetric \<or> oldmetric + 384 \<le> newmetric then
               send_request_resend (src_prefix sr) (src_plen sr) (resend_seqno sr)
                 (hash_id e (src_address sr)) s1
             else if oldmetric + 288 \<le> newmetric then
               send_request None (src_prefix sr) (src_plen sr) 0 0 0 s1
             else s1
           else s1)"

subsection \<open>The selection policy\<close>

text \<open>The code at the label \<^verbatim>\<open>install:\<close> of \<^verbatim>\<open>consider_route\<close>.\<close>

definition consider_install :: "env \<Rightarrow> nat option \<Rightarrow> nat \<Rightarrow> state \<Rightarrow> state" where
  "consider_install e cur i s =
     (let s1 = change_route e cur i s;
          r = routes s1 ! i; sr = srcs s1 ! src r
      in if cur \<noteq> None \<and> installed r then
           send_triggered_update e i (src (routes s1 ! the cur))
             (int (metric (routes s1 ! the cur))) s1
         else send_update None True (src_prefix sr) (src_plen sr) s1)"

definition consider_route :: "env \<Rightarrow> nat \<Rightarrow> state \<Rightarrow> state" where
  "consider_route e i s =
     (let r = routes s ! i; sr = srcs s ! src r in
      if installed r then s
      else if \<not> route_feasible e r s then s
      else if find_xroute e (src_prefix sr) (src_plen sr) then s
      else
        case find_installed_route (src_prefix sr) (src_plen sr) s of
          None \<Rightarrow> consider_install e None i s
        | Some c \<Rightarrow>
            if INFINITY \<le> metric r then s
            else if INFINITY \<le> metric (routes s ! c) then consider_install e (Some c) i s
            else if metric r + 192 \<le> metric (routes s ! c) then consider_install e (Some c) i s
            else if src (routes s ! c) \<noteq> src r then s
            else if metric r + 96 \<le> metric (routes s ! c) then consider_install e (Some c) i s
            else s)"

text \<open>The parameter \<^verbatim>\<open>oldmetric\<close> is an \<^verbatim>\<open>unsigned short\<close>.\<close>

definition trigger_route_change :: "env \<Rightarrow> nat \<Rightarrow> nat \<Rightarrow> nat \<Rightarrow> state \<Rightarrow> state" where
  "trigger_route_change e i oldsrc oldmetric s =
     (let old16 = oldmetric mod 65536; r = routes s ! i; sr = srcs s ! src r in
      if installed r then
        let s1 =
              (if old16 < metric r then
                 case find_best_route e (src_prefix sr) (src_plen sr) True None s of
                   Some b \<Rightarrow>
                     if int (metric (routes s ! b)) \<le> int (metric r) - 96
                     then consider_route e b s else s
                 | None \<Rightarrow> s
               else s)
        in if installed (routes s1 ! i)
           then send_triggered_update e i oldsrc (int old16) s1 else s1
      else consider_route e i s)"

definition route_lost :: "env \<Rightarrow> nat \<Rightarrow> int \<Rightarrow> state \<Rightarrow> state" where
  "route_lost e k oldmetric s =
     (let sr = srcs s ! k in
      case find_best_route e (src_prefix sr) (src_plen sr) True None s of
        Some b \<Rightarrow> consider_route e b s
      | None \<Rightarrow>
          let s1 = send_update None True (src_prefix sr) (src_plen sr) s in
          if oldmetric < int INFINITY then
            send_request_resend (src_prefix sr) (src_plen sr) (resend_seqno sr)
              (hash_id e (src_address sr)) s1
          else s1)"

subsection \<open>Removal\<close>

text \<open>
  \<^verbatim>\<open>flush_route\<close> is called with a pointer into the table: \<^verbatim>\<open>assert(n >= 0 && n < numroutes)\<close>
  is the precondition \<open>n < numroutes s\<close> of this function.
\<close>

definition flush_route :: "env \<Rightarrow> nat \<Rightarrow> state \<Rightarrow> state" where
  "flush_route e n s =
     (let oldmetric = int (metric (routes s ! n));
          lost = installed (routes s ! n);
          s1 = (if installed (routes s ! n) then uninstall_route e n s else s);
          k = src (routes s1 ! n);
          rs = (if n \<noteq> numroutes s1 - 1
                then (routes s1)[n := routes s1 ! (numroutes s1 - 1)] else routes s1);
          s2 = s1\<lparr>routes := take (numroutes s1 - 1) rs\<rparr>
      in if lost then route_lost e k oldmetric s2 else s2)"

subsection \<open>Metric changes\<close>

definition update_route_metric :: "env \<Rightarrow> nat \<Rightarrow> state \<Rightarrow> state" where
  "update_route_metric e i s =
     (let r = routes s ! i;
          oldmetric = metric r;
          (newmetric, s1) =
            (if time r < now e - route_timeout_delay e then
               (INFINITY,
                if unat (refmetric r) < INFINITY then
                  s\<lparr>routes := (routes s)[i := r\<lparr>seqno := seqno_plus (src_seqno (srcs s ! src r)) 1,
                                                 refmetric := word_of_nat INFINITY\<rparr>]\<rparr>
                else s)
             else (min (unat (refmetric r) + neighbour_cost e (neigh r)) INFINITY, s));
          s2 = change_route_metric e i newmetric s1
      in trigger_route_change e i (src (routes s2 ! i)) oldmetric s2)"

subsection \<open>Making room\<close>

text \<open>
  The body of the first loop of \<^verbatim>\<open>drop_some_routes\<close>, at index \<open>i\<close>. After a
  \<^verbatim>\<open>flush_route\<close> the \<^verbatim>\<open>continue\<close> goes back to the loop test; when neither test holds the
  body ends, and the loop test comes next as well. The body has no \<^verbatim>\<open>i++\<close>: on every path
  \<open>i\<close> is what it was.
\<close>

definition drop_some_routes_body :: "env \<Rightarrow> nat \<Rightarrow> state \<Rightarrow> state" where
  "drop_some_routes_body e i s =
     (if \<not> installed (routes s ! i) \<and> time (routes s ! i) < now e - 90
      then flush_route e i s
      else if INFINITY \<le> metric (routes s ! i) \<and> time (routes s ! i) < now e - 90
      then flush_route e i s
      else s)"

text \<open>
  The first loop, \<^verbatim>\<open>while(i < numroutes)\<close>. It need not end: \<open>None\<close> is a run that never
  leaves it.
\<close>

partial_function (option) drop_some_routes_loop :: "env \<Rightarrow> nat \<Rightarrow> state \<Rightarrow> state option" where
  "drop_some_routes_loop e i s =
     (if i < numroutes s then drop_some_routes_loop e i (drop_some_routes_body e i s)
      else Some s)"

text \<open>
  The same loop cut after at most \<open>n\<close> iterations: the state that a run has reached then,
  whether or not the run ever ends.
\<close>

fun drop_some_routes_upto :: "nat \<Rightarrow> env \<Rightarrow> nat \<Rightarrow> state \<Rightarrow> state" where
  "drop_some_routes_upto 0 e i s = s"
| "drop_some_routes_upto (Suc n) e i s =
     (if i < numroutes s then drop_some_routes_upto n e i (drop_some_routes_body e i s) else s)"

text \<open>The second loop: the first route that is not feasible is flushed.\<close>

definition drop_unfeasible :: "env \<Rightarrow> state \<Rightarrow> state option" where
  "drop_unfeasible e s =
     (case find (\<lambda>i. \<not> route_feasible e (routes s ! i) s) [0..<numroutes s] of
        Some i \<Rightarrow> Some (flush_route e i s)
      | None \<Rightarrow> None)"

text \<open>The third loop: the first route that is not installed is flushed.\<close>

definition drop_uninstalled :: "env \<Rightarrow> state \<Rightarrow> state option" where
  "drop_uninstalled e s =
     (case find (\<lambda>i. \<not> installed (routes s ! i)) [0..<numroutes s] of
        Some i \<Rightarrow> Some (flush_route e i s)
      | None \<Rightarrow> None)"

text \<open>\<open>None\<close> is a call that does not return; the second and the third loop return at their first flush.\<close>

definition drop_some_routes :: "env \<Rightarrow> state \<Rightarrow> state option" where
  "drop_some_routes e s =
     (case drop_some_routes_loop e 0 s of
        None \<Rightarrow> None
      | Some s1 \<Rightarrow>
          if numroutes s1 < MAXROUTES e then Some s1
          else
            (case drop_unfeasible e s1 of
               Some s2 \<Rightarrow> Some s2
             | None \<Rightarrow>
                 (case drop_uninstalled e s1 of
                    Some s3 \<Rightarrow> Some s3
                  | None \<Rightarrow> Some s1)))"

subsection \<open>Receiving an update\<close>

text \<open>The branch \<^verbatim>\<open>if(route)\<close> of \<^verbatim>\<open>update_route\<close>: the route \<open>i\<close> is in the table.\<close>

definition update_existing_route ::
  "env \<Rightarrow> nat \<Rightarrow> nat \<Rightarrow> bool \<Rightarrow> nat \<Rightarrow> address \<Rightarrow> address \<Rightarrow> 8 word \<Rightarrow> 16 word \<Rightarrow> 16 word \<Rightarrow>
     state \<Rightarrow> state" where
  "update_existing_route e i k feasible m a p pl sq rm s =
     (let oldsrc = src (routes s ! i);
          oldmetric = metric (routes s ! i) mod 65536;
          lost = (\<not> feasible \<and> installed (routes s ! i));
          s1 = (if \<not> feasible \<and> installed (routes s ! i) then uninstall_route e i s else s);
          r1 = (routes s1 ! i)\<lparr>src := k\<rparr>;
          r2 = (if feasible \<and> unat rm < INFINITY then
                  (if INFINITY \<le> unat (refmetric r1)
                   then r1\<lparr>time := now e, origtime := now e\<rparr>
                   else r1\<lparr>time := now e\<rparr>)
                else r1);
          r3 = r2\<lparr>seqno := sq, refmetric := rm\<rparr>;
          s2 = s1\<lparr>routes := (routes s1)[i := r3]\<rparr>;
          s3 = change_route_metric e i m s2;
          s4 = (if feasible then trigger_route_change e i oldsrc oldmetric s3
                else send_unfeasible_request e m a p pl s3)
      in if lost then route_lost e oldsrc (int oldmetric) s4 else s4)"

text \<open>
  The result is the pointer returned (\<open>None\<close> for \<^verbatim>\<open>NULL\<close>) with the new state; the outer
  \<open>None\<close> is a call that does not return, because \<^verbatim>\<open>drop_some_routes\<close> does not.
\<close>

definition update_route ::
  "env \<Rightarrow> address \<Rightarrow> address \<Rightarrow> 8 word \<Rightarrow> 16 word \<Rightarrow> 16 word \<Rightarrow> neighbour \<Rightarrow> address \<Rightarrow>
     state \<Rightarrow> (nat option \<times> state) option" where
  "update_route e a p pl sq rm n nh s =
     (if martian_prefix e p pl then Some (None, s)
      else
        let add_metric = input_filter e a p pl (neigh_id e n) (net_ifindex e (neigh_network e n))
        in
        if INFINITY \<le> add_metric then Some (None, s)
        else
          let (found, s0) = find_source e a p pl True sq s in
          (case found of
             None \<Rightarrow> Some (None, s0)
           | Some k \<Rightarrow>
               let feasible = update_feasible e a p pl sq rm s0;
                   route = find_route p pl n nh s0;
                   m = min (unat rm + neighbour_cost e n + add_metric) INFINITY
               in
               (case route of
                  Some i \<Rightarrow>
                    Some (Some i, update_existing_route e i k feasible m a p pl sq rm s0)
                | None \<Rightarrow>
                    if \<not> feasible then Some (None, send_unfeasible_request e m a p pl s0)
                    else if INFINITY \<le> unat rm then Some (None, s0)
                    else
                      (case (if MAXROUTES e \<le> numroutes s0 then drop_some_routes e s0
                             else Some s0) of
                         None \<Rightarrow> None
                       | Some s1 \<Rightarrow>
                           if MAXROUTES e \<le> numroutes s1 then Some (None, s1)
                           else
                             let new = numroutes s1;
                                 s2 = s1\<lparr>routes := routes s1 @
                                        [\<lparr>src = k, metric = m, refmetric = rm, seqno = sq,
                                          neigh = n, nexthop = nh, time = now e,
                                          origtime = now e, installed = False\<rparr>]\<rparr>
                             in Some (Some new, consider_route e new s2)))))"

subsection \<open>Expiry\<close>

function expire_routes_loop :: "env \<Rightarrow> nat \<Rightarrow> state \<Rightarrow> state" where
  "expire_routes_loop e i s =
     (if i < numroutes s then
        (if time (routes s ! i) < now e - route_gc_delay e
         then expire_routes_loop e i (flush_route e i s)
         else
           let s1 = update_route_metric e i s;
               r = routes s1 ! i;
               sr = srcs s1 ! src r;
               s2 = (if installed r \<and> unat (refmetric r) < INFINITY
                        \<and> time r < now e - max 10 (route_timeout_delay e - 25)
                     then send_unicast_request (neigh r) (src_prefix sr) (src_plen sr) 0 0 0 s1
                     else s1)
           in expire_routes_loop e (i + 1) s2)
      else s)"
  by pat_completeness auto

definition expire_routes :: "env \<Rightarrow> state \<Rightarrow> state" where
  "expire_routes e s = expire_routes_loop e 0 s"

section \<open>Properties of the table\<close>

text \<open>The prefix of a route is the prefix of its source.\<close>

definition route_prefix :: "source list \<Rightarrow> route \<Rightarrow> address \<times> 8 word" where
  "route_prefix ss r = (src_prefix (ss ! src r), src_plen (ss ! src r))"

text \<open>At most one route per prefix is installed.\<close>

definition one_installed :: "state \<Rightarrow> bool" where
  "one_installed s = distinct (map (route_prefix (srcs s)) (filter installed (routes s)))"

text \<open>Every installed route has a finite metric.\<close>

definition installed_finite :: "state \<Rightarrow> bool" where
  "installed_finite s = list_all (\<lambda>r. installed r \<longrightarrow> metric r < INFINITY) (routes s)"

text \<open>Every route points to a source of the source table.\<close>

definition sources_valid :: "state \<Rightarrow> bool" where
  "sources_valid s = list_all (\<lambda>r. src r < length (srcs s)) (routes s)"

text \<open>
  The routes that \<^verbatim>\<open>find_best_route\<close> does not skip: they match the prefix, are not older than
  the timeout, are feasible when only feasible routes are asked for, and do not go through
  the excluded neighbour.
\<close>

definition route_candidate ::
  "env \<Rightarrow> address \<Rightarrow> 8 word \<Rightarrow> bool \<Rightarrow> neighbour option \<Rightarrow> state \<Rightarrow> nat \<Rightarrow> bool" where
  "route_candidate e p pl feasible exclude s i =
     (source_match (srcs s ! src (routes s ! i)) p pl \<and>
      \<not> time (routes s ! i) < now e - route_timeout_delay e \<and>
      (feasible \<longrightarrow> route_feasible e (routes s ! i) s) \<and>
      exclude \<noteq> Some (neigh (routes s ! i)))"

text \<open>
  What \<^verbatim>\<open>flush_route\<close> does to the array: the last entry is copied into slot \<open>n\<close> and the
  array loses its last slot.
\<close>

definition remove_slot :: "nat \<Rightarrow> 'a list \<Rightarrow> 'a list" where
  "remove_slot n xs = take (length xs - 1) (xs[n := xs ! (length xs - 1)])"

section \<open>Examples\<close>

text \<open>
  A configuration in which every kernel request succeeds, \<^verbatim>\<open>perror\<close> leaves \<^verbatim>\<open>errno\<close> as it
  is, no prefix has an xroute, the
  prefix \<open>0\<close> is martian, and the filter drops the updates of origin \<open>66\<close>; the cost of
  every neighbour is 50. The tables hold routes to the prefix \<open>32/64\<close> of origin \<open>1\<close>, whose
  source has the seqno 5 and the metric 120.
\<close>

definition example_env :: env where
  "example_env =
     \<lparr>MAXROUTES = 2, MAXSRCS = 2, KERNEL_INFINITY = 255, kernel_metric = 0,
      route_timeout_delay = 160, route_gc_delay = 180, now = 1000,
      neighbour_cost = (\<lambda>n. 50), neigh_id = (\<lambda>n. word_of_nat n),
      neigh_network = (\<lambda>n. n), net_ifindex = (\<lambda>n. n),
      find_xroute = (\<lambda>p pl. False), martian_prefix = (\<lambda>p pl. p = 0),
      input_filter = (\<lambda>a p pl i x. if a = 66 then 65535 else 0),
      unsatisfied_request = (\<lambda>p pl sq h. False),
      hash_id = (\<lambda>a. unat a mod 65536), kernel_reply = (\<lambda>n. (0, 0)),
      perror = (\<lambda>err. err), new_source_metric = 65535, new_source_time = 1000\<rparr>"

definition example_source :: source where
  "example_source =
     \<lparr>src_address = 1, src_prefix = 32, src_plen = 64, src_seqno = 5, src_metric = 120,
      src_time = 1000\<rparr>"

definition example_route :: route where
  "example_route =
     \<lparr>src = 0, metric = 150, refmetric = 100, seqno = 5, neigh = 1, nexthop = 7,
      time = 1000, origtime = 1000, installed = False\<rparr>"

definition example_state :: state where
  "example_state = \<lparr>routes = [example_route], srcs = [example_source], klog = [], msgs = []\<rparr>"

definition example_table :: state where
  "example_table =
     \<lparr>routes =
        [example_route\<lparr>metric := 60, refmetric := 10, time := 800, neigh := 4\<rparr>,
         example_route,
         example_route\<lparr>metric := 100, refmetric := 50, neigh := 2\<rparr>,
         example_route\<lparr>metric := 100, refmetric := 50, neigh := 3\<rparr>],
      srcs = [example_source], klog = [], msgs = []\<rparr>"

definition example_retraction :: route where
  "example_retraction = example_route\<lparr>metric := 65535, refmetric := 65535\<rparr>"

definition example_stale :: route where
  "example_stale = example_route\<lparr>time := 800, installed := True\<rparr>"

definition example_other_source :: source where
  "example_other_source = example_source\<lparr>src_prefix := 33\<rparr>"

definition example_old_table :: state where
  "example_old_table =
     \<lparr>routes =
        [example_retraction\<lparr>time := 800, installed := True\<rparr>,
         example_route\<lparr>src := 1, time := 800, installed := True\<rparr>,
         example_route\<lparr>time := 800, neigh := 2\<rparr>],
      srcs = [example_source, example_other_source], klog = [], msgs = []\<rparr>"

definition example_old_pair :: state where
  "example_old_pair =
     \<lparr>routes =
        [example_retraction\<lparr>time := 800, installed := True\<rparr>,
         example_route\<lparr>time := 800, neigh := 2\<rparr>],
      srcs = [example_source], klog = [], msgs = []\<rparr>"

definition example_pair :: state where
  "example_pair =
     \<lparr>routes =
        [example_route\<lparr>installed := True\<rparr>,
         example_route\<lparr>metric := 50, refmetric := 0, neigh := 2\<rparr>],
      srcs = [example_source], klog = [], msgs = []\<rparr>"

definition example_full :: state where
  "example_full =
     \<lparr>routes =
        [example_route\<lparr>installed := True\<rparr>,
         example_route\<lparr>metric := 110, refmetric := 60, neigh := 2\<rparr>],
      srcs = [example_source], klog = [], msgs = []\<rparr>"

text \<open>A full table of two installed, feasible routes to two prefixes, both just refreshed.\<close>

definition example_busy :: state where
  "example_busy =
     \<lparr>routes =
        [example_route\<lparr>installed := True\<rparr>,
         example_route\<lparr>src := 1, neigh := 2, installed := True\<rparr>],
      srcs = [example_source, example_other_source], klog = [], msgs = []\<rparr>"

section \<open>Lemmas\<close>

subsection \<open>Evaluation\<close>

lemmas example_defs = example_env_def example_source_def example_route_def example_state_def
  example_table_def example_pair_def example_retraction_def example_stale_def
  example_other_source_def example_old_table_def example_old_pair_def example_full_def
  example_busy_def

lemmas eval_defs =
  Let_def numroutes_def INFINITY_def EEXIST_def source_match_def find_source_def
  seqno_compare_def seqno_plus_def kernel_route_def send_update_def send_request_resend_def
  send_request_def send_unicast_request_def find_route_def find_installed_route_def
  metric_to_kernel_def route_ifindex_def install_route_def uninstall_route_def change_route_def
  change_route_metric_def update_feasible_def route_feasible_def find_best_route_step_def
  find_best_route_def resend_seqno_def send_unfeasible_request_def send_triggered_update_def
  consider_install_def consider_route_def trigger_route_change_def route_lost_def
  flush_route_def update_route_metric_def

subsection \<open>What the primitives change\<close>

lemma send_update_simps [simp]:
  "routes (send_update n u p pl s) = routes s"
  "srcs (send_update n u p pl s) = srcs s"
  "klog (send_update n u p pl s) = klog s"
  by (simp_all add: send_update_def)

lemma send_request_resend_simps [simp]:
  "routes (send_request_resend p pl sq h s) = routes s"
  "srcs (send_request_resend p pl sq h s) = srcs s"
  "klog (send_request_resend p pl sq h s) = klog s"
  by (simp_all add: send_request_resend_def)

lemma send_request_simps [simp]:
  "routes (send_request n p pl sq hop ident s) = routes s"
  "srcs (send_request n p pl sq hop ident s) = srcs s"
  "klog (send_request n p pl sq hop ident s) = klog s"
  by (simp_all add: send_request_def)

lemma send_unicast_request_simps [simp]:
  "routes (send_unicast_request n p pl sq hop ident s) = routes s"
  "srcs (send_unicast_request n p pl sq hop ident s) = srcs s"
  "klog (send_unicast_request n p pl sq hop ident s) = klog s"
  by (simp_all add: send_unicast_request_def)

lemma numroutes_msgs [simp]:
  "numroutes (send_update n u p pl s) = numroutes s"
  "numroutes (send_request_resend p pl sq h s) = numroutes s"
  "numroutes (send_request n' p pl sq hop ident s) = numroutes s"
  "numroutes (send_unicast_request n'' p pl sq hop ident s) = numroutes s"
  by (simp_all add: numroutes_def)

lemma find_source_lookup [simp]:
  "snd (find_source e a p pl False sq s) = s"
  by (simp add: find_source_def split: option.splits)

lemma send_unfeasible_request_simps [simp]:
  "routes (send_unfeasible_request e m a p pl s) = routes s"
  "srcs (send_unfeasible_request e m a p pl s) = srcs s"
  "klog (send_unfeasible_request e m a p pl s) = klog s"
  by (simp_all add: send_unfeasible_request_def Let_def split: option.splits)

lemma send_triggered_update_simps [simp]:
  "routes (send_triggered_update e i oldsrc oldmetric s) = routes s"
  "srcs (send_triggered_update e i oldsrc oldmetric s) = srcs s"
  "klog (send_triggered_update e i oldsrc oldmetric s) = klog s"
  by (simp_all add: send_triggered_update_def Let_def)

lemma install_route_routes:
  "routes (install_route e i s) =
     (if installed (routes s ! i) \<or>
         (fst (kernel_reply e (length (klog s))) < 0 \<and>
          perror e (snd (kernel_reply e (length (klog s)))) \<noteq> EEXIST)
      then routes s else (routes s)[i := (routes s ! i)\<lparr>installed := True\<rparr>])"
  by (auto simp add: install_route_def kernel_route_def Let_def)

lemma install_route_srcs [simp]: "srcs (install_route e i s) = srcs s"
  by (simp add: install_route_def kernel_route_def Let_def)

lemma uninstall_route_routes:
  "routes (uninstall_route e i s) =
     (if installed (routes s ! i) then (routes s)[i := (routes s ! i)\<lparr>installed := False\<rparr>]
      else routes s)"
  by (simp add: uninstall_route_def kernel_route_def Let_def)

lemma uninstall_route_srcs [simp]: "srcs (uninstall_route e i s) = srcs s"
  by (simp add: uninstall_route_def kernel_route_def Let_def)

lemma change_route_routes:
  "routes (change_route e old new s) =
     (case old of
        None \<Rightarrow> routes (install_route e new s)
      | Some c \<Rightarrow>
          if installed (routes s ! c) \<and> 0 \<le> fst (kernel_reply e (length (klog s)))
          then (routes s)[c := (routes s ! c)\<lparr>installed := False\<rparr>,
                 new := ((routes s)[c := (routes s ! c)\<lparr>installed := False\<rparr>] ! new)\<lparr>installed := True\<rparr>]
          else routes s)"
  by (simp add: change_route_def kernel_route_def Let_def split: option.splits)

lemma change_route_srcs [simp]: "srcs (change_route e old new s) = srcs s"
  by (simp add: change_route_def kernel_route_def Let_def split: option.splits)

lemma change_route_metric_routes:
  "routes (change_route_metric e i m s) =
     (if installed (routes s ! i) \<and> fst (kernel_reply e (length (klog s))) < 0 then routes s
      else (routes s)[i := (routes s ! i)\<lparr>metric := m\<rparr>])"
  by (simp add: change_route_metric_def kernel_route_def Let_def)

lemma change_route_metric_srcs [simp]: "srcs (change_route_metric e i m s) = srcs s"
  by (simp add: change_route_metric_def kernel_route_def Let_def)

lemma consider_install_routes [simp]:
  "routes (consider_install e cur i s) = routes (change_route e cur i s)"
  "srcs (consider_install e cur i s) = srcs s"
  by (simp_all add: consider_install_def Let_def)


lemma distinct_map_filter_nth:
  "distinct (map f (filter P xs)) \<longleftrightarrow>
     (\<forall>i<length xs. \<forall>j<length xs. P (xs ! i) \<and> P (xs ! j) \<and> f (xs ! i) = f (xs ! j) \<longrightarrow> i = j)"
proof (induction xs)
  case Nil
  show ?case by simp
next
  case (Cons x xs)
  show ?case
  proof (cases "P x")
    case False
    with Cons show ?thesis
      by (simp add: All_less_Suc2)
  next
    case True
    have "f x \<notin> f ` {y \<in> set xs. P y} \<longleftrightarrow> (\<forall>j<length xs. P (xs ! j) \<longrightarrow> f (xs ! j) \<noteq> f x)"
      by (auto simp: in_set_conv_nth image_iff)
    with True Cons show ?thesis
      by (simp add: All_less_Suc2) auto
  qed
qed

lemma one_installed_nth:
  "one_installed s \<longleftrightarrow>
     (\<forall>i<numroutes s. \<forall>j<numroutes s.
        installed (routes s ! i) \<and> installed (routes s ! j) \<and>
        route_prefix (srcs s) (routes s ! i) = route_prefix (srcs s) (routes s ! j) \<longrightarrow> i = j)"
  by (simp add: one_installed_def numroutes_def distinct_map_filter_nth)

lemma find_upt_None: "find P [0..<n] = None \<longleftrightarrow> (\<forall>i<n. \<not> P i)"
  by (auto simp: find_None_iff)

lemma find_upt_Some: "find P [0..<n] = Some i \<longleftrightarrow> i < n \<and> P i \<and> (\<forall>j<i. \<not> P j)"
  by (auto simp: find_Some_iff)

lemma find_installed_route_None:
  "find_installed_route p pl s = None \<longleftrightarrow>
     (\<forall>i<numroutes s. installed (routes s ! i) \<longrightarrow> route_prefix (srcs s) (routes s ! i) \<noteq> (p, pl))"
  by (auto simp: find_installed_route_def find_upt_None route_prefix_def source_match_def)

lemma find_installed_route_Some:
  "find_installed_route p pl s = Some c \<Longrightarrow>
     c < numroutes s \<and> installed (routes s ! c) \<and> route_prefix (srcs s) (routes s ! c) = (p, pl)"
  by (auto simp: find_installed_route_def find_upt_Some route_prefix_def source_match_def)

lemma consider_route_srcs [simp]: "srcs (consider_route e i s) = srcs s"
  by (simp add: consider_route_def Let_def split: option.splits)

lemma consider_route_routes:
  assumes "i < numroutes s"
  shows "routes (consider_route e i s) = routes s \<or>
     (\<not> installed (routes s ! i) \<and>
      find_installed_route (fst (route_prefix (srcs s) (routes s ! i))) (snd (route_prefix (srcs s) (routes s ! i))) s = None \<and>
      routes (consider_route e i s) = (routes s)[i := (routes s ! i)\<lparr>installed := True\<rparr>]) \<or>
     (\<exists>c. \<not> installed (routes s ! i) \<and> metric (routes s ! i) < INFINITY \<and>
      find_installed_route (fst (route_prefix (srcs s) (routes s ! i))) (snd (route_prefix (srcs s) (routes s ! i))) s = Some c \<and>
      routes (consider_route e i s) =
        (routes s)[c := (routes s ! c)\<lparr>installed := False\<rparr>, i := (routes s ! i)\<lparr>installed := True\<rparr>])"
proof (cases "find_installed_route (fst (route_prefix (srcs s) (routes s ! i))) (snd (route_prefix (srcs s) (routes s ! i))) s")
  case None
  then show ?thesis
    by (simp add: consider_route_def Let_def route_prefix_def change_route_routes install_route_routes)
next
  case (Some c)
  from find_installed_route_Some [OF Some] have c: "installed (routes s ! c)" by simp
  have ne: "\<not> installed (routes s ! i) \<Longrightarrow> c \<noteq> i" using c by auto
  show ?thesis using Some c ne
    by (auto simp add: consider_route_def Let_def route_prefix_def change_route_routes)
qed

lemma one_installed_consider_route:
  assumes "i < numroutes s" "one_installed s"
  shows "one_installed (consider_route e i s)"
  using consider_route_routes [OF assms(1), of e]
proof (elim disjE exE conjE)
  assume "routes (consider_route e i s) = routes s"
  with assms(2) show ?thesis by (simp add: one_installed_def route_prefix_def)
next
  assume a: "\<not> installed (routes s ! i)"
    "find_installed_route (fst (route_prefix (srcs s) (routes s ! i))) (snd (route_prefix (srcs s) (routes s ! i))) s = None"
    "routes (consider_route e i s) = (routes s)[i := (routes s ! i)\<lparr>installed := True\<rparr>]"
  have pfx: "\<And>r. route_prefix (srcs (consider_route e i s)) r = route_prefix (srcs s) r"
    by (simp add: route_prefix_def)
  from a(2) have none: "\<And>j. j < numroutes s \<Longrightarrow> installed (routes s ! j) \<Longrightarrow>
      route_prefix (srcs s) (routes s ! j) \<noteq> route_prefix (srcs s) (routes s ! i)"
    by (simp add: find_installed_route_None)
  show ?thesis
    unfolding one_installed_nth
  proof (intro allI impI)
    fix j k
    assume jk: "j < numroutes (consider_route e i s)" "k < numroutes (consider_route e i s)"
      and h: "installed (routes (consider_route e i s) ! j) \<and> installed (routes (consider_route e i s) ! k) \<and>
         route_prefix (srcs (consider_route e i s)) (routes (consider_route e i s) ! j) =
         route_prefix (srcs (consider_route e i s)) (routes (consider_route e i s) ! k)"
    from jk have jk': "j < numroutes s" "k < numroutes s" by (simp_all add: numroutes_def a(3))
    show "j = k"
    proof (cases "j = i"; cases "k = i")
      assume "j = i" "k = i" then show ?thesis by simp
    next
      assume "j = i" "k \<noteq> i"
      with h jk' assms(1) none [of k] show ?thesis
        by (simp add: a(3) pfx numroutes_def route_prefix_def)
    next
      assume "j \<noteq> i" "k = i"
      with h jk' assms(1) none [of j] show ?thesis
        by (simp add: a(3) pfx numroutes_def route_prefix_def)
    next
      assume "j \<noteq> i" "k \<noteq> i"
      with h jk' assms(2) show ?thesis
        by (simp add: a(3) pfx one_installed_nth)
    qed
  qed
next
  fix c
  assume a: "\<not> installed (routes s ! i)"
    "find_installed_route (fst (route_prefix (srcs s) (routes s ! i))) (snd (route_prefix (srcs s) (routes s ! i))) s = Some c"
    "routes (consider_route e i s) =
       (routes s)[c := (routes s ! c)\<lparr>installed := False\<rparr>, i := (routes s ! i)\<lparr>installed := True\<rparr>]"
  have pfx: "\<And>r. route_prefix (srcs (consider_route e i s)) r = route_prefix (srcs s) r"
    by (simp add: route_prefix_def)
  from find_installed_route_Some [OF a(2)]
  have c: "c < numroutes s" "installed (routes s ! c)"
    "route_prefix (srcs s) (routes s ! c) = route_prefix (srcs s) (routes s ! i)"
    by simp_all
  have ci: "c \<noteq> i" using a(1) c(2) by auto
  show ?thesis
    unfolding one_installed_nth
  proof (intro allI impI)
    fix j k
    assume jk: "j < numroutes (consider_route e i s)" "k < numroutes (consider_route e i s)"
      and h: "installed (routes (consider_route e i s) ! j) \<and> installed (routes (consider_route e i s) ! k) \<and>
         route_prefix (srcs (consider_route e i s)) (routes (consider_route e i s) ! j) =
         route_prefix (srcs (consider_route e i s)) (routes (consider_route e i s) ! k)"
    from jk have jk': "j < numroutes s" "k < numroutes s" by (simp_all add: numroutes_def a(3))
    have old: "\<And>x. x < numroutes s \<Longrightarrow> x \<noteq> i \<Longrightarrow> installed (routes (consider_route e i s) ! x) \<Longrightarrow>
        route_prefix (srcs s) (routes (consider_route e i s) ! x) = route_prefix (srcs s) (routes s ! i) \<Longrightarrow> False"
    proof -
      fix x assume x: "x < numroutes s" "x \<noteq> i" "installed (routes (consider_route e i s) ! x)"
        "route_prefix (srcs s) (routes (consider_route e i s) ! x) = route_prefix (srcs s) (routes s ! i)"
      show False
      proof (cases "x = c")
        case True
        with x c ci show False by (simp add: a(3) numroutes_def)
      next
        case False
        with x c ci have "installed (routes s ! x)" "route_prefix (srcs s) (routes s ! x) = route_prefix (srcs s) (routes s ! c)"
          by (simp_all add: a(3) numroutes_def)
        with assms(2) x(1) c(1,2) False show False
          by (auto simp: one_installed_nth)
      qed
    qed
    show "j = k"
    proof (cases "j = i"; cases "k = i")
      assume "j = i" "k = i" then show ?thesis by simp
    next
      assume "j = i" "k \<noteq> i"
      with h jk' assms(1) old [of k] show ?thesis
        by (simp add: a(3) pfx numroutes_def route_prefix_def)
    next
      assume "j \<noteq> i" "k = i"
      with h jk' assms(1) old [of j] show ?thesis
        by (simp add: a(3) pfx numroutes_def route_prefix_def)
    next
      assume "j \<noteq> i" "k \<noteq> i"
      show ?thesis
      proof (cases "j = c \<or> k = c")
        case True
        with h jk' c ci \<open>j \<noteq> i\<close> \<open>k \<noteq> i\<close> show ?thesis
          by (auto simp add: a(3) numroutes_def)
      next
        case False
        with h jk' assms(2) \<open>j \<noteq> i\<close> \<open>k \<noteq> i\<close> show ?thesis
          by (simp add: a(3) pfx one_installed_nth)
      qed
    qed
  qed
qed

lemma numroutes_consider_route [simp]: "numroutes (consider_route e i s) = numroutes s"
  by (auto simp add: consider_route_def Let_def numroutes_def change_route_routes install_route_routes
      split: option.splits)

lemma find_best_route_step_eq:
  "find_best_route_step e p pl f x s i best =
     (if route_candidate e p pl f x s i \<and>
         (case best of None \<Rightarrow> True | Some b \<Rightarrow> metric (routes s ! i) < metric (routes s ! b))
      then Some i else best)"
  by (auto simp: find_best_route_step_def route_candidate_def Let_def split: option.splits)

lemma find_best_route_fold:
  "(fold (find_best_route_step e p pl f x s) [0..<n] None = None \<longleftrightarrow>
      (\<forall>i<n. \<not> route_candidate e p pl f x s i)) \<and>
   (\<forall>b. fold (find_best_route_step e p pl f x s) [0..<n] None = Some b \<longrightarrow>
      b < n \<and> route_candidate e p pl f x s b \<and>
      (\<forall>j<n. route_candidate e p pl f x s j \<longrightarrow>
         metric (routes s ! b) \<le> metric (routes s ! j) \<and>
         (metric (routes s ! j) = metric (routes s ! b) \<longrightarrow> b \<le> j)))"
proof (induction n)
  case 0
  show ?case by simp
next
  case (Suc n)
  let ?F = "find_best_route_step e p pl f x s"
  have unfold: "fold ?F [0..<Suc n] None = ?F n (fold ?F [0..<n] None)"
    by simp
  show ?case
  proof (cases "fold ?F [0..<n] None")
    case None
    with Suc have none: "\<And>i. i < n \<Longrightarrow> \<not> route_candidate e p pl f x s i"
      by simp
    have "fold ?F [0..<Suc n] None = (if route_candidate e p pl f x s n then Some n else None)"
      unfolding unfold None by (simp add: find_best_route_step_eq [of e p pl f x s n None])
    then show ?thesis using none
      by (auto simp: less_Suc_eq)
  next
    case (Some b)
    with Suc have b: "b < n" "route_candidate e p pl f x s b"
      "\<And>j. j < n \<Longrightarrow> route_candidate e p pl f x s j \<Longrightarrow>
         metric (routes s ! b) \<le> metric (routes s ! j) \<and>
         (metric (routes s ! j) = metric (routes s ! b) \<longrightarrow> b \<le> j)"
      by auto
    show ?thesis
    proof (cases "route_candidate e p pl f x s n \<and> metric (routes s ! n) < metric (routes s ! b)")
      case True
      then have "fold ?F [0..<Suc n] None = Some n"
        unfolding unfold Some by (simp add: find_best_route_step_eq [of e p pl f x s n "Some b"])
      moreover have "\<And>j. j < n \<Longrightarrow> route_candidate e p pl f x s j \<Longrightarrow>
          metric (routes s ! n) \<le> metric (routes s ! j) \<and> metric (routes s ! j) \<noteq> metric (routes s ! n)"
        using b(3) True by fastforce
      ultimately show ?thesis using True
        by (auto simp: less_Suc_eq)
    next
      case False
      then have "fold ?F [0..<Suc n] None = Some b"
        unfolding unfold Some by (auto simp add: find_best_route_step_eq [of e p pl f x s n "Some b"])
      then show ?thesis using b False
        by (auto simp: less_Suc_eq)
    qed
  qed
qed

lemma find_best_route_bound:
  "find_best_route e p pl f x s = Some b \<Longrightarrow> b < numroutes s"
  using find_best_route_fold [of e p pl f x s "numroutes s"]
  by (simp add: find_best_route_def)

lemma numroutes_primitives [simp]:
  "numroutes (install_route e i s) = numroutes s"
  "numroutes (uninstall_route e i s) = numroutes s"
  "numroutes (change_route e old i s) = numroutes s"
  "numroutes (change_route_metric e i m s) = numroutes s"
  "numroutes (send_triggered_update e i k om s) = numroutes s"
  "numroutes (send_unfeasible_request e m a p pl s) = numroutes s"
  by (auto simp add: numroutes_def install_route_routes uninstall_route_routes change_route_routes
      change_route_metric_routes split: option.splits)

lemma trigger_route_change_srcs [simp]:
  "srcs (trigger_route_change e i k om s) = srcs s"
  by (simp add: trigger_route_change_def Let_def split: option.splits)

lemma numroutes_trigger_route_change [simp]:
  "numroutes (trigger_route_change e i k om s) = numroutes s"
  by (simp add: trigger_route_change_def Let_def split: option.splits)

lemma route_lost_srcs [simp]: "srcs (route_lost e k om s) = srcs s"
  by (simp add: route_lost_def Let_def split: option.splits)

lemma numroutes_route_lost [simp]: "numroutes (route_lost e k om s) = numroutes s"
  by (simp add: route_lost_def Let_def split: option.splits)

lemma one_installed_routes_eq:
  "routes s' = routes s \<Longrightarrow> srcs s' = srcs s \<Longrightarrow> one_installed s' = one_installed s"
  by (simp add: one_installed_def)

lemma one_installed_trigger_route_change:
  assumes "i < numroutes s" "one_installed s"
  shows "one_installed (trigger_route_change e i k om s)"
proof -
  have msgs: "\<And>t j a b. one_installed (send_triggered_update e j a b t) = one_installed t"
    by (rule one_installed_routes_eq) simp_all
  show ?thesis
    using assms
    by (auto simp add: trigger_route_change_def Let_def msgs one_installed_consider_route
        find_best_route_bound split: option.splits)
qed

lemma one_installed_route_lost:
  assumes "one_installed s"
  shows "one_installed (route_lost e k om s)"
proof -
  have msgs: "\<And>t p pl u. one_installed (send_update None u p pl t) = one_installed t"
    "\<And>t p pl sq h. one_installed (send_request_resend p pl sq h t) = one_installed t"
    by (rule one_installed_routes_eq; simp)+
  show ?thesis
    using assms
    by (auto simp add: route_lost_def Let_def msgs one_installed_consider_route
        find_best_route_bound split: option.splits)
qed

subsection \<open>Removing a slot\<close>

lemma length_remove_slot [simp]: "length (remove_slot n xs) = length xs - 1"
  by (simp add: remove_slot_def)

lemma nth_remove_slot:
  "j < length xs - 1 \<Longrightarrow> remove_slot n xs ! j = (if j = n then xs ! (length xs - 1) else xs ! j)"
  by (simp add: remove_slot_def)

lemma set_remove_slot: "set (remove_slot n xs) \<subseteq> set xs"
proof
  fix x assume "x \<in> set (remove_slot n xs)"
  then obtain j where j: "j < length xs - 1" "remove_slot n xs ! j = x"
    by (auto simp: in_set_conv_nth)
  then show "x \<in> set xs"
    by (auto simp: nth_remove_slot split: if_splits)
qed

lemma remove_slot_keeps:
  assumes "n < length xs" "m < length xs" "m \<noteq> n"
  shows "xs ! m \<in> set (remove_slot n xs)"
proof (cases "m = length xs - 1")
  case True
  with assms have "n < length xs - 1" by simp
  then have "remove_slot n xs ! n = xs ! m" using True by (simp add: nth_remove_slot)
  with \<open>n < length xs - 1\<close> show ?thesis
    by (metis length_remove_slot nth_mem)
next
  case False
  with assms have "m < length xs - 1" by simp
  then have "remove_slot n xs ! m = xs ! m" using assms by (simp add: nth_remove_slot)
  with \<open>m < length xs - 1\<close> show ?thesis
    by (metis length_remove_slot nth_mem)
qed

lemma flush_route_eq:
  "flush_route e n s =
     (let s1 = (if installed (routes s ! n) then uninstall_route e n s else s);
          s2 = s1\<lparr>routes := remove_slot n (routes s1)\<rparr>
      in if installed (routes s ! n)
         then route_lost e (src (routes s1 ! n)) (int (metric (routes s ! n))) s2 else s2)"
proof -
  have "\<And>xs::route list. (if n \<noteq> length xs - 1 then xs[n := xs ! (length xs - 1)] else xs) =
      xs[n := xs ! (length xs - 1)]"
    by simp
  then show ?thesis
    by (simp add: flush_route_def Let_def remove_slot_def numroutes_def)
qed

lemma numroutes_flush_route [simp]: "numroutes (flush_route e n s) = numroutes s - 1"
  by (simp add: flush_route_eq Let_def) (simp add: numroutes_def uninstall_route_routes)

lemma srcs_flush_route [simp]: "srcs (flush_route e n s) = srcs s"
  by (simp add: flush_route_eq Let_def)

lemma one_installed_remove_slot:
  assumes "one_installed s"
  shows "one_installed (s\<lparr>routes := remove_slot n (routes s)\<rparr>)"
  unfolding one_installed_nth
proof (intro allI impI)
  let ?s = "s\<lparr>routes := remove_slot n (routes s)\<rparr>"
  let ?g = "\<lambda>j. if j = n then numroutes s - 1 else j"
  fix j k
  assume jk: "j < numroutes ?s" "k < numroutes ?s"
    and h: "installed (routes ?s ! j) \<and> installed (routes ?s ! k) \<and>
       route_prefix (srcs ?s) (routes ?s ! j) = route_prefix (srcs ?s) (routes ?s ! k)"
  from jk have jk': "j < numroutes s - 1" "k < numroutes s - 1" by (simp_all add: numroutes_def)
  then have nth: "routes ?s ! j = routes s ! ?g j" "routes ?s ! k = routes s ! ?g k"
    by (simp_all add: nth_remove_slot numroutes_def)
  from jk' have lt: "?g j < numroutes s" "?g k < numroutes s" by auto
  from h have "installed (routes s ! ?g j) \<and> installed (routes s ! ?g k) \<and>
      route_prefix (srcs s) (routes s ! ?g j) = route_prefix (srcs s) (routes s ! ?g k)"
    unfolding nth by simp
  with assms lt have "?g j = ?g k"
    unfolding one_installed_nth by blast
  with jk' show "j = k" by (auto split: if_splits)
qed

lemma nth_list_update_in:
  "j < length xs \<Longrightarrow> xs[n := x] ! j = (if j = n then x else xs ! j)"
  by auto

lemma one_installed_antimono:
  assumes "one_installed s" "srcs s' = srcs s" "length (routes s') = length (routes s)"
    and "\<And>j. j < length (routes s) \<Longrightarrow>
           (installed (routes s' ! j) \<longrightarrow> installed (routes s ! j)) \<and>
           route_prefix (srcs s) (routes s' ! j) = route_prefix (srcs s) (routes s ! j)"
  shows "one_installed s'"
  unfolding one_installed_nth
proof (intro allI impI)
  fix j k
  assume jk: "j < numroutes s'" "k < numroutes s'"
    and h: "installed (routes s' ! j) \<and> installed (routes s' ! k) \<and>
       route_prefix (srcs s') (routes s' ! j) = route_prefix (srcs s') (routes s' ! k)"
  from jk assms(3) have jk': "j < length (routes s)" "k < length (routes s)"
    by (simp_all add: numroutes_def)
  from h assms(4) [OF jk'(1)] assms(4) [OF jk'(2)] assms(2)
  have "installed (routes s ! j) \<and> installed (routes s ! k) \<and>
       route_prefix (srcs s) (routes s ! j) = route_prefix (srcs s) (routes s ! k)"
    by simp
  with assms(1) jk' show "j = k"
    unfolding one_installed_nth numroutes_def by blast
qed

lemma one_installed_uninstall_route:
  assumes "one_installed s"
  shows "one_installed (uninstall_route e n s)"
  by (rule one_installed_antimono [OF assms])
     (auto simp add: uninstall_route_routes nth_list_update_in route_prefix_def)

lemma one_installed_flush_route:
  assumes "one_installed s"
  shows "one_installed (flush_route e n s)"
  using assms
  by (simp add: flush_route_eq Let_def one_installed_route_lost one_installed_remove_slot
      one_installed_uninstall_route)

lemma numroutes_updates [simp]:
  "numroutes (s\<lparr>routes := xs\<rparr>) = length xs"
  "numroutes (s\<lparr>srcs := ss\<rparr>) = numroutes s"
  "numroutes (s\<lparr>klog := ks\<rparr>) = numroutes s"
  "numroutes (s\<lparr>msgs := ms\<rparr>) = numroutes s"
  by (simp_all add: numroutes_def)

lemma update_route_metric_srcs [simp]: "srcs (update_route_metric e i s) = srcs s"
  by (simp add: update_route_metric_def Let_def split: prod.splits if_splits)

lemma numroutes_update_route_metric [simp]: "numroutes (update_route_metric e i s) = numroutes s"
  by (auto simp add: update_route_metric_def Let_def numroutes_def change_route_metric_routes
      simp flip: numroutes_def split: prod.splits if_splits)

lemma one_installed_change_route_metric:
  assumes "one_installed s"
  shows "one_installed (change_route_metric e i m s)"
  by (rule one_installed_antimono [OF assms])
     (auto simp add: change_route_metric_routes nth_list_update_in route_prefix_def)

lemma one_installed_update_route_metric:
  assumes "i < numroutes s" "one_installed s"
  shows "one_installed (update_route_metric e i s)"
proof -
  let ?r = "(routes s ! i)\<lparr>seqno := seqno_plus (src_seqno (srcs s ! src (routes s ! i))) 1,
                            refmetric := word_of_nat INFINITY\<rparr>"
  have "one_installed (s\<lparr>routes := (routes s)[i := ?r]\<rparr>)"
    by (rule one_installed_antimono [OF assms(2)])
       (auto simp add: nth_list_update_in route_prefix_def)
  with assms show ?thesis
    by (auto simp add: update_route_metric_def Let_def one_installed_trigger_route_change
        one_installed_change_route_metric numroutes_def[of "s\<lparr>routes := _\<rparr>"] simp flip: numroutes_def
        split: prod.splits if_splits)
qed

termination expire_routes_loop
  by (relation "measure (\<lambda>(e, i, s). numroutes s - i)") auto

lemma one_installed_expire_routes_loop:
  "one_installed s \<Longrightarrow> one_installed (expire_routes_loop e i s)"
proof (induction e i s rule: expire_routes_loop.induct)
  case (1 e i s)
  have msg: "\<And>t n p pl. one_installed (send_unicast_request n p pl 0 0 0 t) = one_installed t"
    by (rule one_installed_routes_eq) simp_all
  show ?case
  proof (cases "i < numroutes s")
    case False
    then show ?thesis using "1.prems" by simp
  next
    case True
    show ?thesis
    proof (cases "time (routes s ! i) < now e - route_gc_delay e")
      case old: True
      with True "1.IH"(1) "1.prems" show ?thesis
        by (simp add: one_installed_flush_route)
    next
      case new: False
      have "one_installed (update_route_metric e i s)"
        using True "1.prems" by (rule one_installed_update_route_metric)
      with True new "1.IH"(2) show ?thesis
        by (simp add: Let_def msg)
    qed
  qed
qed

lemma drop_some_routes_loop_exit:
  "\<not> i < numroutes s \<Longrightarrow> drop_some_routes_loop e i s = Some s"
  by (subst drop_some_routes_loop.simps) simp

lemma drop_some_routes_loop_step:
  "i < numroutes s \<Longrightarrow>
     drop_some_routes_loop e i s = drop_some_routes_loop e i (drop_some_routes_body e i s)"
  by (subst drop_some_routes_loop.simps) simp

lemma drop_some_routes_loop_upto_exit:
  "\<not> i < numroutes (drop_some_routes_upto n e i s) \<Longrightarrow>
     drop_some_routes_loop e i s = Some (drop_some_routes_upto n e i s)"
proof (induction n arbitrary: s)
  case 0
  then show ?case by (simp add: drop_some_routes_loop_exit)
next
  case (Suc n)
  then show ?case
    by (cases "i < numroutes s") (simp_all add: drop_some_routes_loop_exit drop_some_routes_loop_step)
qed

lemma drop_some_routes_loop_stuck:
  assumes "i < numroutes s" and "drop_some_routes_body e i s = s"
  shows "drop_some_routes_loop e i s = None"
proof (rule ccontr)
  assume "drop_some_routes_loop e i s \<noteq> None"
  then obtain y where y: "drop_some_routes_loop e i s = Some y"
    by auto
  have "\<not> (i < numroutes s \<and> drop_some_routes_body e i s = s)"
  proof (rule drop_some_routes_loop.raw_induct
      [where P = "\<lambda>e i s y. \<not> (i < numroutes s \<and> drop_some_routes_body e i s = s)", OF _ y])
    fix loop :: "env \<Rightarrow> nat \<Rightarrow> state \<Rightarrow> state option" and e i s y
    assume IH: "\<And>e i s y. loop e i s = Some y \<Longrightarrow>
        \<not> (i < numroutes s \<and> drop_some_routes_body e i s = s)"
      and step: "(if i < numroutes s then loop e i (drop_some_routes_body e i s) else Some s) = Some y"
    show "\<not> (i < numroutes s \<and> drop_some_routes_body e i s = s)"
    proof
      assume stuck: "i < numroutes s \<and> drop_some_routes_body e i s = s"
      with step have "loop e i s = Some y" by simp
      from IH [OF this] stuck show False by simp
    qed
  qed
  with assms show False by simp
qed

lemma drop_some_routes_loop_empties:
  assumes "drop_some_routes_loop e 0 s = Some s'"
  shows "numroutes s' = 0"
proof -
  have "\<not> 0 < numroutes s'"
  proof (rule drop_some_routes_loop.raw_induct
      [where P = "\<lambda>e i s s'. \<not> i < numroutes s'", OF _ assms])
    fix loop :: "env \<Rightarrow> nat \<Rightarrow> state \<Rightarrow> state option" and e i s s'
    assume IH: "\<And>e i s s'. loop e i s = Some s' \<Longrightarrow> \<not> i < numroutes s'"
      and step: "(if i < numroutes s then loop e i (drop_some_routes_body e i s) else Some s) = Some s'"
    show "\<not> i < numroutes s'"
      using step IH by (auto split: if_splits)
  qed
  then show ?thesis by simp
qed

lemma drop_some_routes_empties:
  assumes "drop_some_routes e s = Some s'"
  shows "numroutes s' = 0"
proof -
  from assms obtain s1 where s1: "drop_some_routes_loop e 0 s = Some s1"
    by (auto simp add: drop_some_routes_def split: option.splits)
  then have empty: "numroutes s1 = 0"
    by (rule drop_some_routes_loop_empties)
  then have "drop_unfeasible e s1 = None" "drop_uninstalled e s1 = None"
    by (simp_all add: drop_unfeasible_def drop_uninstalled_def)
  with assms s1 have "s' = s1"
    by (simp add: drop_some_routes_def split: if_splits)
  with empty show ?thesis by simp
qed

lemma one_installed_drop_some_routes_body:
  "one_installed s \<Longrightarrow> one_installed (drop_some_routes_body e i s)"
  by (simp add: drop_some_routes_body_def one_installed_flush_route)

lemma one_installed_drop_some_routes_loop:
  assumes "drop_some_routes_loop e i s = Some s'"
  shows "one_installed s \<longrightarrow> one_installed s'"
proof (rule drop_some_routes_loop.raw_induct
    [where P = "\<lambda>e i s s'. one_installed s \<longrightarrow> one_installed s'", OF _ assms])
  fix loop :: "env \<Rightarrow> nat \<Rightarrow> state \<Rightarrow> state option" and e i s s'
  assume IH: "\<And>e i s s'. loop e i s = Some s' \<Longrightarrow> one_installed s \<longrightarrow> one_installed s'"
    and step: "(if i < numroutes s then loop e i (drop_some_routes_body e i s) else Some s) = Some s'"
  show "one_installed s \<longrightarrow> one_installed s'"
    using step IH one_installed_drop_some_routes_body
    by (auto split: if_splits)
qed

lemma one_installed_drop_some_routes:
  "drop_some_routes e s = Some s' \<Longrightarrow> one_installed s \<Longrightarrow> one_installed s'"
  by (auto simp: drop_some_routes_def drop_unfeasible_def drop_uninstalled_def
      one_installed_flush_route split: option.splits if_splits
      dest!: one_installed_drop_some_routes_loop)

lemma find_source_Some:
  assumes "find_source e a p pl c sq s = (Some k, s0)"
  shows "k < length (srcs s0)" "src_address (srcs s0 ! k) = a" "source_match (srcs s0 ! k) p pl"
    "routes s0 = routes s" "klog s0 = klog s" "msgs s0 = msgs s"
    "\<exists>new. srcs s0 = srcs s \<or> srcs s0 = srcs s @ [new]"
  using assms
  by (auto simp add: find_source_def find_upt_Some source_match_def nth_append
      split: option.splits if_splits)

lemma find_source_None:
  assumes "find_source e a p pl c sq s = (None, s0)"
  shows "s0 = s"
  using assms
  by (auto simp add: find_source_def split: option.splits if_splits)

lemma find_route_Some:
  assumes "find_route p pl n nh s = Some i"
  shows "i < numroutes s" "source_match (srcs s ! src (routes s ! i)) p pl"
    "neigh (routes s ! i) = n" "nexthop (routes s ! i) = nh"
  using assms by (auto simp add: find_route_def find_upt_Some)

lemma sources_valid_nth:
  "sources_valid s \<longleftrightarrow> (\<forall>i<numroutes s. src (routes s ! i) < length (srcs s))"
  by (simp add: sources_valid_def list_all_length numroutes_def)

lemma one_installed_find_source:
  assumes "find_source e a p pl c sq s = (r, s0)" "one_installed s" "sources_valid s"
  shows "one_installed s0"
proof (cases r)
  case None
  with assms find_source_None [of e a p pl c sq s s0] show ?thesis by simp
next
  case (Some k)
  from find_source_Some(4,7) [OF assms(1) [unfolded Some]]
  obtain new where s0: "routes s0 = routes s" "srcs s0 = srcs s \<or> srcs s0 = srcs s @ [new]"
    by blast
  have "map (route_prefix (srcs s0)) (filter installed (routes s)) =
        map (route_prefix (srcs s)) (filter installed (routes s))"
    using s0(2) assms(3)
    by (auto simp add: route_prefix_def sources_valid_def list_all_iff nth_append)
  with assms(2) s0(1) show ?thesis
    by (simp only: one_installed_def)
qed

lemma one_installed_update_existing_route:
  assumes "one_installed s" "i < numroutes s"
    and "source_match (srcs s ! src (routes s ! i)) p pl" "source_match (srcs s ! k) p pl"
  shows "one_installed (update_existing_route e i k f m a p pl sq rm s)"
proof -
  define s1 where "s1 = (if \<not> f \<and> installed (routes s ! i) then uninstall_route e i s else s)"
  define r3 where "r3 =
    (if f \<and> unat rm < INFINITY then
       (if INFINITY \<le> unat (refmetric ((routes s1 ! i)\<lparr>src := k\<rparr>))
        then (routes s1 ! i)\<lparr>src := k, time := now e, origtime := now e\<rparr>
        else (routes s1 ! i)\<lparr>src := k, time := now e\<rparr>)
     else (routes s1 ! i)\<lparr>src := k\<rparr>)\<lparr>seqno := sq, refmetric := rm\<rparr>"
  define s2 where "s2 = s1\<lparr>routes := (routes s1)[i := r3]\<rparr>"
  define s3 where "s3 = change_route_metric e i m s2"
  define s4 where "s4 = (if f then trigger_route_change e i (src (routes s ! i)) (metric (routes s ! i) mod 65536) s3
                else send_unfeasible_request e m a p pl s3)"
  have res: "update_existing_route e i k f m a p pl sq rm s =
      (if \<not> f \<and> installed (routes s ! i)
       then route_lost e (src (routes s ! i)) (int (metric (routes s ! i) mod 65536)) s4 else s4)"
    by (simp add: update_existing_route_def Let_def s1_def r3_def s2_def s3_def s4_def)
  have 1: "one_installed s1"
    using assms(1) by (simp add: s1_def one_installed_uninstall_route)
  have s1_facts: "srcs s1 = srcs s" "length (routes s1) = length (routes s)"
    "src (routes s1 ! i) = src (routes s ! i)"
    using assms(2)
    by (auto simp add: s1_def uninstall_route_routes numroutes_def)
  have r3: "installed r3 = installed (routes s1 ! i)" "src r3 = k"
    by (simp_all add: r3_def)
  have 2: "one_installed s2"
    by (rule one_installed_antimono [OF 1])
       (use assms(3,4) s1_facts r3 in
         \<open>auto simp add: s2_def nth_list_update_in route_prefix_def source_match_def\<close>)
  have 3: "one_installed s3"
    using 2 by (simp add: s3_def one_installed_change_route_metric)
  have n3: "numroutes s3 = numroutes s"
    using s1_facts by (simp add: s3_def s2_def) (simp add: numroutes_def)
  have "one_installed (send_unfeasible_request e m a p pl s3) = one_installed s3"
    by (rule one_installed_routes_eq) simp_all
  with 3 n3 assms(2) have 4: "one_installed s4"
    by (simp add: s4_def one_installed_trigger_route_change)
  then show ?thesis
    by (simp add: res one_installed_route_lost)
qed

lemma one_installed_update_route:
  assumes "update_route e a p pl sq rm n nh s = Some (r, s')"
    and "one_installed s" "sources_valid s"
  shows "one_installed s'"
proof (cases "martian_prefix e p pl \<or>
    INFINITY \<le> input_filter e a p pl (neigh_id e n) (net_ifindex e (neigh_network e n))")
  case True
  with assms show ?thesis
    by (auto simp add: update_route_def Let_def split: if_splits)
next
  case False
  obtain found s0 where fs: "find_source e a p pl True sq s = (found, s0)"
    by (cases "find_source e a p pl True sq s")
  have 0: "one_installed s0"
    using fs assms(2,3) by (rule one_installed_find_source)
  show ?thesis
  proof (cases found)
    case None
    with False fs assms(1) 0 show ?thesis
      by (auto simp add: update_route_def Let_def)
  next
    case (Some k)
    note k = find_source_Some [OF fs [unfolded Some]]
    show ?thesis
    proof (cases "find_route p pl n nh s0")
      case (Some i)
      note i = find_route_Some [OF Some]
      have "one_installed (update_existing_route e i k (update_feasible e a p pl sq rm s0)
          (min (unat rm + neighbour_cost e n +
                input_filter e a p pl (neigh_id e n) (net_ifindex e (neigh_network e n))) INFINITY)
          a p pl sq rm s0)"
        using 0 i(1,2) k(3) by (rule one_installed_update_existing_route)
      with False fs \<open>found = Some k\<close> Some assms(1) show ?thesis
        by (auto simp add: update_route_def Let_def)
    next
      case None
      have msg: "\<And>m. one_installed (send_unfeasible_request e m a p pl s0) = one_installed s0"
        by (rule one_installed_routes_eq) simp_all
      have new: "\<And>s1 x. one_installed s1 \<Longrightarrow> \<not> installed x \<Longrightarrow>
          one_installed (consider_route e (numroutes s1) (s1\<lparr>routes := routes s1 @ [x]\<rparr>))"
      proof -
        fix s1 :: state and x :: route
        assume "one_installed s1" "\<not> installed x"
        then have "one_installed (s1\<lparr>routes := routes s1 @ [x]\<rparr>)"
          by (simp add: one_installed_def)
        then show "one_installed (consider_route e (numroutes s1) (s1\<lparr>routes := routes s1 @ [x]\<rparr>))"
          by (rule one_installed_consider_route [rotated]) (simp add: numroutes_def)
      qed
      from False fs \<open>found = Some k\<close> None assms(1) 0 show ?thesis
        by (auto simp add: update_route_def Let_def msg new
            split: if_splits option.splits dest: one_installed_drop_some_routes)
    qed
  qed
qed

subsection \<open>The sources of the routes\<close>

lemma map_src_update:
  "src x = src (xs ! i) \<Longrightarrow> map src (xs[i := x]) = map src xs"
  by (cases "i < length xs") (simp_all add: map_update list_update_same_conv list_update_beyond)

lemma sources_valid_map_src:
  "sources_valid s \<longleftrightarrow> (\<forall>k \<in> set (map src (routes s)). k < length (srcs s))"
  by (simp add: sources_valid_def list_all_iff)

lemma map_src_primitives [simp]:
  "map src (routes (install_route e i s)) = map src (routes s)"
  "map src (routes (uninstall_route e i s)) = map src (routes s)"
  "map src (routes (change_route_metric e i m s)) = map src (routes s)"
  by (simp_all add: install_route_routes uninstall_route_routes change_route_metric_routes
      map_src_update)

lemma map_src_change_route [simp]:
  "map src (routes (change_route e old i s)) = map src (routes s)"
proof (cases old)
  case None
  then show ?thesis by (simp add: change_route_def)
next
  case (Some c)
  have "src (((routes s)[c := (routes s ! c)\<lparr>installed := False\<rparr>] ! i)\<lparr>installed := True\<rparr>) =
      src ((routes s)[c := (routes s ! c)\<lparr>installed := False\<rparr>] ! i)"
    by simp
  then show ?thesis
    unfolding Some by (simp add: change_route_routes map_src_update del: nth_list_update)
qed

lemma map_src_consider_route [simp]:
  "map src (routes (consider_route e i s)) = map src (routes s)"
  by (simp add: consider_route_def Let_def split: option.splits)

lemma map_src_trigger_route_change [simp]:
  "map src (routes (trigger_route_change e i k om s)) = map src (routes s)"
  by (simp add: trigger_route_change_def Let_def split: option.splits)

lemma map_src_route_lost [simp]:
  "map src (routes (route_lost e k om s)) = map src (routes s)"
  by (simp add: route_lost_def Let_def split: option.splits)

lemma map_src_update_route_metric [simp]:
  "map src (routes (update_route_metric e i s)) = map src (routes s)"
  by (simp add: update_route_metric_def Let_def map_src_update split: prod.splits if_splits)

lemma map_src_flush_route:
  "set (map src (routes (flush_route e n s))) \<subseteq> set (map src (routes s))"
proof -
  have "set (map src (remove_slot n (routes (uninstall_route e n s)))) \<subseteq>
      set (map src (routes (uninstall_route e n s)))"
    "set (map src (remove_slot n (routes s))) \<subseteq> set (map src (routes s))"
    using set_remove_slot by (metis image_mono set_map)+
  then show ?thesis
    by (simp add: flush_route_eq Let_def del: set_map)
qed

lemma sources_valid_flush_route:
  "sources_valid s \<Longrightarrow> sources_valid (flush_route e n s)"
  using map_src_flush_route [of e n s]
  by (auto simp add: sources_valid_map_src simp del: set_map)

lemma sources_valid_same:
  "srcs s' = srcs s \<Longrightarrow> map src (routes s') = map src (routes s) \<Longrightarrow>
     sources_valid s' = sources_valid s"
  by (simp add: sources_valid_map_src del: set_map)

lemma sources_valid_consider_route:
  "sources_valid s \<Longrightarrow> sources_valid (consider_route e i s)"
  by (simp add: sources_valid_same [of "consider_route e i s" s])

lemma sources_valid_expire_routes_loop:
  "sources_valid s \<Longrightarrow> sources_valid (expire_routes_loop e i s)"
proof (induction e i s rule: expire_routes_loop.induct)
  case (1 e i s)
  show ?case
  proof (cases "i < numroutes s")
    case False
    then show ?thesis using "1.prems" by simp
  next
    case True
    show ?thesis
    proof (cases "time (routes s ! i) < now e - route_gc_delay e")
      case old: True
      with True "1.IH"(1) "1.prems" show ?thesis
        by (simp add: sources_valid_flush_route)
    next
      case new: False
      have u: "sources_valid (update_route_metric e i s)"
        using "1.prems" by (simp add: sources_valid_same [of "update_route_metric e i s" s])
      have "\<And>t n p pl. sources_valid (send_unicast_request n p pl 0 0 0 t) = sources_valid t"
        by (rule sources_valid_same) simp_all
      with True new "1.IH"(2) u show ?thesis
        by (simp add: Let_def)
    qed
  qed
qed

lemma sources_valid_drop_some_routes_loop:
  assumes "drop_some_routes_loop e i s = Some s'"
  shows "sources_valid s \<longrightarrow> sources_valid s'"
proof (rule drop_some_routes_loop.raw_induct
    [where P = "\<lambda>e i s s'. sources_valid s \<longrightarrow> sources_valid s'", OF _ assms])
  fix loop :: "env \<Rightarrow> nat \<Rightarrow> state \<Rightarrow> state option" and e i s s'
  assume IH: "\<And>e i s s'. loop e i s = Some s' \<Longrightarrow> sources_valid s \<longrightarrow> sources_valid s'"
    and step: "(if i < numroutes s then loop e i (drop_some_routes_body e i s) else Some s) = Some s'"
  have "sources_valid s \<Longrightarrow> sources_valid (drop_some_routes_body e i s)"
    by (simp add: drop_some_routes_body_def sources_valid_flush_route)
  with step IH show "sources_valid s \<longrightarrow> sources_valid s'"
    by (auto split: if_splits)
qed

lemma sources_valid_drop_some_routes:
  "drop_some_routes e s = Some s' \<Longrightarrow> sources_valid s \<Longrightarrow> sources_valid s'"
  by (auto simp: drop_some_routes_def drop_unfeasible_def drop_uninstalled_def
      sources_valid_flush_route split: option.splits if_splits
      dest!: sources_valid_drop_some_routes_loop)

lemma sources_valid_find_source:
  assumes "find_source e a p pl c sq s = (r, s0)" and "sources_valid s"
  shows "sources_valid s0"
proof (cases r)
  case None
  with assms find_source_None [of e a p pl c sq s s0] show ?thesis by simp
next
  case (Some k)
  from find_source_Some(4,7) [OF assms(1) [unfolded Some]]
  obtain new where s0: "routes s0 = routes s" "srcs s0 = srcs s \<or> srcs s0 = srcs s @ [new]"
    by blast
  with assms(2) show ?thesis
    by (auto simp add: sources_valid_def list_all_iff)
qed

lemma sources_valid_update_existing_route:
  assumes "sources_valid s" and "k < length (srcs s)"
  shows "sources_valid (update_existing_route e i k f m a p pl sq rm s)"
proof -
  define s1 where "s1 = (if \<not> f \<and> installed (routes s ! i) then uninstall_route e i s else s)"
  define r3 where "r3 =
    (if f \<and> unat rm < INFINITY then
       (if INFINITY \<le> unat (refmetric ((routes s1 ! i)\<lparr>src := k\<rparr>))
        then (routes s1 ! i)\<lparr>src := k, time := now e, origtime := now e\<rparr>
        else (routes s1 ! i)\<lparr>src := k, time := now e\<rparr>)
     else (routes s1 ! i)\<lparr>src := k\<rparr>)\<lparr>seqno := sq, refmetric := rm\<rparr>"
  define s2 where "s2 = s1\<lparr>routes := (routes s1)[i := r3]\<rparr>"
  define s3 where "s3 = change_route_metric e i m s2"
  define s4 where "s4 = (if f then trigger_route_change e i (src (routes s ! i)) (metric (routes s ! i) mod 65536) s3
                else send_unfeasible_request e m a p pl s3)"
  have res: "update_existing_route e i k f m a p pl sq rm s =
      (if \<not> f \<and> installed (routes s ! i)
       then route_lost e (src (routes s ! i)) (int (metric (routes s ! i) mod 65536)) s4 else s4)"
    by (simp add: update_existing_route_def Let_def s1_def r3_def s2_def s3_def s4_def)
  have 1: "sources_valid s1" "srcs s1 = srcs s"
    using assms(1) by (simp_all add: s1_def sources_valid_same [of "uninstall_route e i s" s])
  have "src r3 = k" by (simp add: r3_def)
  with 1 assms(2) have 2: "sources_valid s2" "srcs s2 = srcs s"
    by (auto simp add: s2_def sources_valid_def list_all_iff dest!: set_update_subset_insert [THEN subsetD])
  have 3: "sources_valid s3" "srcs s3 = srcs s"
    using 2 by (simp_all add: s3_def sources_valid_same [of "change_route_metric e i m s2" s2])
  have "sources_valid (trigger_route_change e i (src (routes s ! i)) (metric (routes s ! i) mod 65536) s3) =
      sources_valid s3"
    "sources_valid (send_unfeasible_request e m a p pl s3) = sources_valid s3"
    by (rule sources_valid_same; simp)+
  with 3 have 4: "sources_valid s4"
    by (simp add: s4_def)
  have "sources_valid (route_lost e (src (routes s ! i)) (int (metric (routes s ! i) mod 65536)) s4) =
      sources_valid s4"
    by (rule sources_valid_same) simp_all
  with 4 show ?thesis
    by (simp add: res)
qed

lemma sources_valid_update_route:
  assumes "update_route e a p pl sq rm n nh s = Some (r, s')" and "sources_valid s"
  shows "sources_valid s'"
proof (cases "martian_prefix e p pl \<or>
    INFINITY \<le> input_filter e a p pl (neigh_id e n) (net_ifindex e (neigh_network e n))")
  case True
  with assms show ?thesis
    by (auto simp add: update_route_def Let_def split: if_splits)
next
  case False
  obtain found s0 where fs: "find_source e a p pl True sq s = (found, s0)"
    by (cases "find_source e a p pl True sq s")
  have 0: "sources_valid s0"
    using fs assms(2) by (rule sources_valid_find_source)
  show ?thesis
  proof (cases found)
    case None
    with False fs assms(1) 0 show ?thesis
      by (auto simp add: update_route_def Let_def)
  next
    case (Some k)
    note k = find_source_Some [OF fs [unfolded Some]]
    show ?thesis
    proof (cases "find_route p pl n nh s0")
      case (Some i)
      have "sources_valid (update_existing_route e i k (update_feasible e a p pl sq rm s0)
          (min (unat rm + neighbour_cost e n +
                input_filter e a p pl (neigh_id e n) (net_ifindex e (neigh_network e n))) INFINITY)
          a p pl sq rm s0)"
        using 0 k(1) by (rule sources_valid_update_existing_route)
      with False fs \<open>found = Some k\<close> Some assms(1) show ?thesis
        by (auto simp add: update_route_def Let_def)
    next
      case None
      have msg: "\<And>m. sources_valid (send_unfeasible_request e m a p pl s0) = sources_valid s0"
        by (rule sources_valid_same) simp_all
      have loop: "\<And>t t'. drop_some_routes_loop e 0 t = Some t' \<Longrightarrow> srcs t' = srcs t"
      proof -
        fix t t' assume l: "drop_some_routes_loop e 0 t = Some t'"
        show "srcs t' = srcs t"
          by (rule drop_some_routes_loop.raw_induct
              [where P = "\<lambda>e i s s'. srcs s' = srcs s", OF _ l])
             (auto simp add: drop_some_routes_body_def split: if_splits)
      qed
      have srcs_drop: "\<And>s1. drop_some_routes e s0 = Some s1 \<Longrightarrow> srcs s1 = srcs s0"
        by (auto simp add: drop_some_routes_def drop_unfeasible_def drop_uninstalled_def
            split: option.splits if_splits dest!: loop)
      let ?x = "\<lparr>src = k, metric = min (unat rm + neighbour_cost e n +
                input_filter e a p pl (neigh_id e n) (net_ifindex e (neigh_network e n))) INFINITY,
              refmetric = rm, seqno = sq, neigh = n, nexthop = nh, time = now e,
              origtime = now e, installed = False\<rparr>"
      have new: "\<And>s1. sources_valid s1 \<Longrightarrow> srcs s1 = srcs s0 \<Longrightarrow>
          sources_valid (consider_route e (numroutes s1) (s1\<lparr>routes := routes s1 @ [?x]\<rparr>))"
      proof -
        fix s1 :: state
        assume "sources_valid s1" "srcs s1 = srcs s0"
        with k(1) have "sources_valid (s1\<lparr>routes := routes s1 @ [?x]\<rparr>)"
          by (simp add: sources_valid_def)
        then show "sources_valid (consider_route e (numroutes s1) (s1\<lparr>routes := routes s1 @ [?x]\<rparr>))"
          by (rule sources_valid_consider_route)
      qed
      from False fs \<open>found = Some k\<close> None assms(1)
      consider "s' = send_unfeasible_request e (min (unat rm + neighbour_cost e n +
                input_filter e a p pl (neigh_id e n) (net_ifindex e (neigh_network e n))) INFINITY)
                a p pl s0"
        | "s' = s0"
        | s1 where "drop_some_routes e s0 = Some s1" "s' = s1"
        | s1 where "drop_some_routes e s0 = Some s1"
            "s' = consider_route e (numroutes s1) (s1\<lparr>routes := routes s1 @ [?x]\<rparr>)"
        | "s' = consider_route e (numroutes s0) (s0\<lparr>routes := routes s0 @ [?x]\<rparr>)"
        by (auto simp add: update_route_def Let_def split: if_splits option.splits)
      then show ?thesis
      proof cases
        case 1
        with 0 msg show ?thesis by simp
      next
        case 2
        with 0 show ?thesis by simp
      next
        case 3
        with 0 show ?thesis using sources_valid_drop_some_routes by blast
      next
        case 4
        from 4(1) 0 have "sources_valid s1" by (rule sources_valid_drop_some_routes)
        with 4 srcs_drop show ?thesis using new by blast
      next
        case 5
        with 0 new [of s0] show ?thesis by simp
      qed
    qed
  qed
qed

section \<open>The claims\<close>

subsection \<open>At most one installed route per prefix (C1)\<close>

lemma one_installed_set_installed:
  assumes "one_installed s" and "i < numroutes s"
    and "\<And>j. j < numroutes s \<Longrightarrow> installed (routes s ! j) \<Longrightarrow> j \<noteq> i \<Longrightarrow>
           route_prefix (srcs s) (routes s ! j) \<noteq> route_prefix (srcs s) (routes s ! i)"
  shows "one_installed (s\<lparr>routes := (routes s)[i := (routes s ! i)\<lparr>installed := True\<rparr>]\<rparr>)"
  unfolding one_installed_nth
proof (intro allI impI)
  let ?s = "s\<lparr>routes := (routes s)[i := (routes s ! i)\<lparr>installed := True\<rparr>]\<rparr>"
  fix j k
  assume jk: "j < numroutes ?s" "k < numroutes ?s"
    and h: "installed (routes ?s ! j) \<and> installed (routes ?s ! k) \<and>
       route_prefix (srcs ?s) (routes ?s ! j) = route_prefix (srcs ?s) (routes ?s ! k)"
  from jk have jk': "j < numroutes s" "k < numroutes s" by (simp_all add: numroutes_def)
  let ?rs = "(routes s)[i := (routes s ! i)\<lparr>installed := True\<rparr>]"
  from h have h': "installed (?rs ! j)" "installed (?rs ! k)"
    "route_prefix (srcs s) (?rs ! j) = route_prefix (srcs s) (?rs ! k)"
    by simp_all
  have pfx: "\<And>x. x < numroutes s \<Longrightarrow>
      route_prefix (srcs s) (?rs ! x) = route_prefix (srcs s) (routes s ! x)"
    by (simp add: nth_list_update_in numroutes_def route_prefix_def)
  have inst: "\<And>x. x < numroutes s \<Longrightarrow> x \<noteq> i \<Longrightarrow> installed (?rs ! x) = installed (routes s ! x)"
    by (simp add: nth_list_update_in numroutes_def)
  from h'(3) jk' have same: "route_prefix (srcs s) (routes s ! j) = route_prefix (srcs s) (routes s ! k)"
    by (simp only: pfx)
  show "j = k"
  proof (cases "j = i"; cases "k = i")
    assume "j = i" "k = i" then show ?thesis by simp
  next
    assume "j = i" "k \<noteq> i"
    with h' jk' same assms(3) [of k] inst [of k] show ?thesis by auto
  next
    assume "j \<noteq> i" "k = i"
    with h' jk' same assms(3) [of j] inst [of j] show ?thesis by auto
  next
    assume "j \<noteq> i" "k \<noteq> i"
    with h' jk' same inst [of j] inst [of k] assms(1) show ?thesis
      unfolding one_installed_nth by blast
  qed
qed

lemma one_installed_install_route:
  assumes "one_installed s" and "i < numroutes s"
    and "find_installed_route (src_prefix (srcs s ! src (routes s ! i)))
           (src_plen (srcs s ! src (routes s ! i))) s = None"
  shows "one_installed (install_route e i s)"
proof -
  have none: "\<And>j. j < numroutes s \<Longrightarrow> installed (routes s ! j) \<Longrightarrow>
      route_prefix (srcs s) (routes s ! j) \<noteq> route_prefix (srcs s) (routes s ! i)"
    using assms(3) by (simp add: find_installed_route_None route_prefix_def)
  have "one_installed (s\<lparr>routes := (routes s)[i := (routes s ! i)\<lparr>installed := True\<rparr>]\<rparr>)"
    using assms(1,2) none by (rule one_installed_set_installed)
  moreover have "one_installed (install_route e i s) =
      one_installed (s\<lparr>routes := routes (install_route e i s)\<rparr>)"
    by (rule one_installed_routes_eq) simp_all
  ultimately show ?thesis
    using assms(1) by (auto simp add: install_route_routes)
qed

lemma one_installed_change_route:
  assumes "one_installed s" and "i < numroutes s" and "c < numroutes s"
    and "route_prefix (srcs s) (routes s ! c) = route_prefix (srcs s) (routes s ! i)"
  shows "one_installed (change_route e (Some c) i s)"
proof (cases "installed (routes s ! c) \<and> 0 \<le> fst (kernel_reply e (length (klog s)))")
  case False
  have "one_installed (change_route e (Some c) i s) = one_installed s"
    by (rule one_installed_routes_eq) (use False in \<open>auto simp add: change_route_routes\<close>)
  with assms(1) show ?thesis by simp
next
  case True
  let ?s1 = "s\<lparr>routes := (routes s)[c := (routes s ! c)\<lparr>installed := False\<rparr>]\<rparr>"
  have 1: "one_installed ?s1"
    by (rule one_installed_antimono [OF assms(1)])
       (auto simp add: nth_list_update_in route_prefix_def)
  have n1: "numroutes ?s1 = numroutes s" by (simp add: numroutes_def)
  have none: "\<And>j. j < numroutes ?s1 \<Longrightarrow> installed (routes ?s1 ! j) \<Longrightarrow> j \<noteq> i \<Longrightarrow>
      route_prefix (srcs ?s1) (routes ?s1 ! j) \<noteq> route_prefix (srcs ?s1) (routes ?s1 ! i)"
  proof
    fix j
    assume j: "j < numroutes ?s1" "installed (routes ?s1 ! j)" "j \<noteq> i"
      and eq: "route_prefix (srcs ?s1) (routes ?s1 ! j) = route_prefix (srcs ?s1) (routes ?s1 ! i)"
    from j have jc: "j \<noteq> c" "j < numroutes s" "installed (routes s ! j)"
      by (auto simp add: nth_list_update_in numroutes_def split: if_splits)
    from eq jc assms(2,3) have "route_prefix (srcs s) (routes s ! j) = route_prefix (srcs s) (routes s ! i)"
      by (auto simp add: nth_list_update_in numroutes_def route_prefix_def split: if_splits)
    with assms(4) have "route_prefix (srcs s) (routes s ! j) = route_prefix (srcs s) (routes s ! c)"
      by simp
    with assms(1,3) jc True show False
      unfolding one_installed_nth by blast
  qed
  have "one_installed (?s1\<lparr>routes := (routes ?s1)[i := (routes ?s1 ! i)\<lparr>installed := True\<rparr>]\<rparr>)"
    using 1 assms(2) [folded n1] none by (rule one_installed_set_installed)
  moreover have "one_installed (change_route e (Some c) i s) =
      one_installed (?s1\<lparr>routes := (routes ?s1)[i := (routes ?s1 ! i)\<lparr>installed := True\<rparr>]\<rparr>)"
    by (rule one_installed_routes_eq) (use True in \<open>simp_all add: change_route_routes\<close>)
  ultimately show ?thesis by simp
qed

text \<open>
  Claim C1, as stated, fails. In \<open>example_full\<close> two routes lead to the same prefix and the
  first is installed. \<^verbatim>\<open>install_route\<close> on the second asks the kernel for an \<^verbatim>\<open>ADD\<close>, the
  kernel accepts, and both are installed; \<^verbatim>\<open>change_route\<close> with no old route does the same.
\<close>

theorem one_installed_counterexample:
  "one_installed example_full \<and>
   routes (install_route example_env 1 example_full) =
     [example_route\<lparr>installed := True\<rparr>,
      example_route\<lparr>metric := 110, refmetric := 60, neigh := 2, installed := True\<rparr>] \<and>
   \<not> one_installed (install_route example_env 1 example_full) \<and>
   \<not> one_installed (change_route example_env None 1 example_full)"
  by (simp add: one_installed_def route_prefix_def example_defs eval_defs)

text \<open>
  Claim C1, amended. Started in a state with at most one installed route per prefix,
  \<^verbatim>\<open>update_route\<close> (when it returns, from a table whose routes point into the source
  table), \<^verbatim>\<open>consider_route\<close>, \<^verbatim>\<open>flush_route\<close> and \<^verbatim>\<open>expire_routes\<close> end in such a state.
  \<^verbatim>\<open>install_route\<close>, and \<^verbatim>\<open>change_route\<close> with no old route, do so when no route is
  installed for the prefix of the route; \<^verbatim>\<open>change_route\<close> with an old route does so when
  both routes have the same prefix. All of them leave the routes pointing into the source
  table.
\<close>

theorem one_installed_preserved:
  assumes "one_installed s"
  shows
    "(\<forall>r s'. sources_valid s \<and> update_route e a p pl sq rm n nh s = Some (r, s') \<longrightarrow>
        one_installed s' \<and> sources_valid s') \<and>
     (i < numroutes s \<longrightarrow> one_installed (consider_route e i s)) \<and>
     (i < numroutes s \<longrightarrow> one_installed (flush_route e i s)) \<and>
     one_installed (expire_routes e s) \<and>
     (i < numroutes s \<and>
      find_installed_route (src_prefix (srcs s ! src (routes s ! i)))
        (src_plen (srcs s ! src (routes s ! i))) s = None \<longrightarrow>
        one_installed (install_route e i s) \<and> one_installed (change_route e None i s)) \<and>
     (i < numroutes s \<and> c < numroutes s \<and>
      route_prefix (srcs s) (routes s ! c) = route_prefix (srcs s) (routes s ! i) \<longrightarrow>
        one_installed (change_route e (Some c) i s)) \<and>
     (sources_valid s \<longrightarrow>
        sources_valid (consider_route e i s) \<and> sources_valid (flush_route e i s) \<and>
        sources_valid (expire_routes e s) \<and> sources_valid (install_route e i s) \<and>
        sources_valid (change_route e old i s))"
proof (intro conjI allI impI)
  fix r s'
  assume u: "sources_valid s \<and> update_route e a p pl sq rm n nh s = Some (r, s')"
  then show "one_installed s'"
    using assms one_installed_update_route by blast
  from u show "sources_valid s'"
    using sources_valid_update_route by blast
next
  assume "i < numroutes s"
  then show "one_installed (consider_route e i s)"
    using assms by (rule one_installed_consider_route)
next
  show "one_installed (flush_route e i s)"
    using assms by (rule one_installed_flush_route)
next
  show "one_installed (expire_routes e s)"
    unfolding expire_routes_def using assms by (rule one_installed_expire_routes_loop)
next
  assume h: "i < numroutes s \<and>
      find_installed_route (src_prefix (srcs s ! src (routes s ! i)))
        (src_plen (srcs s ! src (routes s ! i))) s = None"
  then show "one_installed (install_route e i s)"
    using assms one_installed_install_route by blast
  from h show "one_installed (change_route e None i s)"
    using assms one_installed_install_route by (simp add: change_route_def)
next
  assume "i < numroutes s \<and> c < numroutes s \<and>
      route_prefix (srcs s) (routes s ! c) = route_prefix (srcs s) (routes s ! i)"
  then show "one_installed (change_route e (Some c) i s)"
    using assms one_installed_change_route by blast
next
  assume v: "sources_valid s"
  then show "sources_valid (consider_route e i s)"
    by (rule sources_valid_consider_route)
  from v show "sources_valid (flush_route e i s)"
    by (rule sources_valid_flush_route)
  from v show "sources_valid (expire_routes e s)"
    unfolding expire_routes_def by (rule sources_valid_expire_routes_loop)
  have "sources_valid (install_route e i s) = sources_valid s"
    "sources_valid (change_route e old i s) = sources_valid s"
    by (rule sources_valid_same; simp)+
  with v show "sources_valid (install_route e i s)" "sources_valid (change_route e old i s)"
    by simp_all
qed

theorem one_installed_preserved_witness:
  "one_installed example_state \<and> sources_valid example_state \<and> one_installed example_pair \<and>
   (\<exists>s'. update_route example_env 1 32 64 5 90 2 8 example_state = Some (Some 1, s') \<and>
      installed (routes s' ! 1) \<and> one_installed s' \<and> sources_valid s') \<and>
   one_installed (consider_route example_env 1 example_pair) \<and>
   one_installed (flush_route example_env 0 example_pair) \<and>
   one_installed (expire_routes example_env example_pair) \<and>
   find_installed_route 32 64 example_state = None \<and>
   one_installed (install_route example_env 0 example_state) \<and>
   one_installed (change_route example_env None 0 example_state) \<and>
   one_installed (change_route example_env (Some 0) 1 example_pair)"
proof -
  have inv: "one_installed example_state" "one_installed example_pair"
    by (simp_all add: one_installed_def route_prefix_def example_defs)
  have valid: "sources_valid example_state"
    by (simp add: sources_valid_def example_defs)
  have size: "0 < numroutes example_state" "0 < numroutes example_pair" "1 < numroutes example_pair"
    by (simp_all add: numroutes_def example_defs)
  have none: "find_installed_route 32 64 example_state = None"
    "find_installed_route (src_prefix (srcs example_state ! src (routes example_state ! 0)))
       (src_plen (srcs example_state ! src (routes example_state ! 0))) example_state = None"
    by (simp_all add: example_defs eval_defs)
  have same: "route_prefix (srcs example_pair) (routes example_pair ! 0) =
      route_prefix (srcs example_pair) (routes example_pair ! 1)"
    by (simp add: route_prefix_def example_defs)
  obtain s' where upd: "update_route example_env 1 32 64 5 90 2 8 example_state = Some (Some 1, s')"
    and inst: "installed (routes s' ! 1)"
    by (simp add: update_route_def example_defs eval_defs)
  note a = one_installed_preserved
    [OF inv(1), where e = example_env and a = 1 and p = 32 and pl = 64 and sq = 5 and rm = 90
       and n = 2 and nh = 8 and i = 0]
  note b = one_installed_preserved
    [OF inv(2), where e = example_env and a = 1 and p = 32 and pl = 64 and sq = 5 and rm = 90
       and n = 2 and nh = 8 and i = 1 and c = 0]
  note c = one_installed_preserved
    [OF inv(2), where e = example_env and a = 1 and p = 32 and pl = 64 and sq = 5 and rm = 90
       and n = 2 and nh = 8 and i = 0]
  from a valid upd have 1: "one_installed s'" "sources_valid s'" by blast+
  from b size(3) have 2: "one_installed (consider_route example_env 1 example_pair)" by blast
  from c size(2) have 3: "one_installed (flush_route example_env 0 example_pair)" by blast
  from b have 4: "one_installed (expire_routes example_env example_pair)" by blast
  from a size(1) none(2) have 5: "one_installed (install_route example_env 0 example_state)"
    "one_installed (change_route example_env None 0 example_state)" by blast+
  from b size(2,3) same have 6: "one_installed (change_route example_env (Some 0) 1 example_pair)"
    by blast
  from upd inst 1 have "\<exists>s'. update_route example_env 1 32 64 5 90 2 8 example_state = Some (Some 1, s') \<and>
      installed (routes s' ! 1) \<and> one_installed s' \<and> sources_valid s'"
    by blast
  with inv valid 2 3 4 none(1) 5 6 show ?thesis
    by (intro conjI)
qed

subsection \<open>The feasibility condition (C2)\<close>

text \<open>
  Claim C2. \<^verbatim>\<open>update_feasible\<close> returns true if and only if the source is unknown, or the
  source's time is older than \<open>now - 200\<close>, or \<open>refmetric \<ge> INFINITY\<close>, or the seqno is
  greater than the source's seqno in the modular 16-bit order, or the seqnos are equal and
  \<open>refmetric\<close> is strictly smaller than the source's metric; and \<^verbatim>\<open>route_feasible\<close> is
  \<^verbatim>\<open>update_feasible\<close> applied to the route's own source, seqno and refmetric.
\<close>

theorem update_feasible_condition:
  "(update_feasible e a p pl sq rm s \<longleftrightarrow>
      fst (find_source e a p pl False 0 s) = None \<or>
      (\<exists>k. fst (find_source e a p pl False 0 s) = Some k \<and>
         (src_time (srcs s ! k) < now e - 200 \<or>
          INFINITY \<le> unat rm \<or>
          (0 < unat (sq - src_seqno (srcs s ! k)) \<and> unat (sq - src_seqno (srcs s ! k)) < 2 ^ 15) \<or>
          (sq = src_seqno (srcs s ! k) \<and> rm < src_metric (srcs s ! k))))) \<and>
   route_feasible e r s =
     update_feasible e (src_address (srcs s ! src r)) (src_prefix (srcs s ! src r))
       (src_plen (srcs s ! src r)) (seqno r) (refmetric r) s"
proof -
  have cmp: "\<And>x y :: 16 word. 0 < seqno_compare x y \<longleftrightarrow> 0 < unat (x - y) \<and> unat (x - y) < 2 ^ 15"
    by (auto simp add: seqno_compare_def)
  show ?thesis
    by (cases "fst (find_source e a p pl False 0 s)")
       (auto simp add: update_feasible_def route_feasible_def Let_def cmp)
qed

subsection \<open>The decision of \<^verbatim>\<open>consider_route\<close> (C3)\<close>

text \<open>
  Claim C3. For a candidate that is feasible, not installed and has no xroute for its prefix,
  with \<open>cur\<close> the installed route of the prefix: if there is no \<open>cur\<close>, \<^verbatim>\<open>consider_route\<close>
  goes to the label \<^verbatim>\<open>install:\<close>; otherwise it does so exactly when the candidate's metric is
  below \<open>INFINITY\<close> and \<open>cur\<close>'s metric is at least \<open>INFINITY\<close>, or at least the candidate's
  plus 192, or at least the candidate's plus 96 with the same source; in every other case
  the state is left as it was. At the label one request is made to the kernel, and when the
  kernel accepts it the candidate is installed and \<open>cur\<close> is not.
\<close>

theorem consider_route_decision:
  assumes "i < numroutes s" and "\<not> installed (routes s ! i)"
    and "route_feasible e (routes s ! i) s"
    and "\<not> find_xroute e (src_prefix (srcs s ! src (routes s ! i)))
             (src_plen (srcs s ! src (routes s ! i)))"
    and "cur = find_installed_route (src_prefix (srcs s ! src (routes s ! i)))
             (src_plen (srcs s ! src (routes s ! i))) s"
  shows "consider_route e i s =
     (case cur of
        None \<Rightarrow> consider_install e None i s
      | Some c \<Rightarrow>
          if metric (routes s ! i) < INFINITY \<and>
             (INFINITY \<le> metric (routes s ! c) \<or>
              metric (routes s ! i) + 192 \<le> metric (routes s ! c) \<or>
              (src (routes s ! c) = src (routes s ! i) \<and>
               metric (routes s ! i) + 96 \<le> metric (routes s ! c)))
          then consider_install e (Some c) i s else s) \<and>
     length (klog (consider_install e cur i s)) = Suc (length (klog s)) \<and>
     (0 \<le> fst (kernel_reply e (length (klog s))) \<longrightarrow>
        installed (routes (consider_install e cur i s) ! i) \<and>
        (\<forall>c. cur = Some c \<longrightarrow> \<not> installed (routes (consider_install e cur i s) ! c)))"
proof (intro conjI)
  show "consider_route e i s =
     (case cur of
        None \<Rightarrow> consider_install e None i s
      | Some c \<Rightarrow>
          if metric (routes s ! i) < INFINITY \<and>
             (INFINITY \<le> metric (routes s ! c) \<or>
              metric (routes s ! i) + 192 \<le> metric (routes s ! c) \<or>
              (src (routes s ! c) = src (routes s ! i) \<and>
               metric (routes s ! i) + 96 \<le> metric (routes s ! c)))
          then consider_install e (Some c) i s else s)"
    using assms(2,3,4) unfolding assms(5)
    by (auto simp add: consider_route_def Let_def split: option.splits)
next
  have klog_msgs: "\<And>t j k om. klog (send_triggered_update e j k om t) = klog t"
    by simp
  show "length (klog (consider_install e cur i s)) = Suc (length (klog s))"
  proof (cases cur)
    case None
    with assms(2) show ?thesis
      by (simp add: consider_install_def Let_def change_route_def install_route_def kernel_route_def)
  next
    case (Some c)
    with assms(5) have "installed (routes s ! c)"
      using find_installed_route_Some by metis
    with Some show ?thesis
      by (simp add: consider_install_def Let_def change_route_def kernel_route_def)
  qed
next
  show "0 \<le> fst (kernel_reply e (length (klog s))) \<longrightarrow>
        installed (routes (consider_install e cur i s) ! i) \<and>
        (\<forall>c. cur = Some c \<longrightarrow> \<not> installed (routes (consider_install e cur i s) ! c))"
  proof (cases cur)
    case None
    with assms(1,2) show ?thesis
      by (simp add: change_route_routes install_route_routes numroutes_def)
  next
    case (Some c)
    with assms(5) have c: "installed (routes s ! c)" "c < numroutes s"
      using find_installed_route_Some by metis+
    with assms(2) have "c \<noteq> i" by auto
    with Some c assms(1,2) show ?thesis
      by (simp add: change_route_routes numroutes_def)
  qed
qed

theorem consider_route_decision_witness:
  "1 < numroutes example_pair \<and>
   \<not> installed (routes example_pair ! 1) \<and>
   route_feasible example_env (routes example_pair ! 1) example_pair \<and>
   find_installed_route 32 64 example_pair = Some 0 \<and>
   routes (consider_route example_env 1 example_pair) =
     [example_route, example_route\<lparr>metric := 50, refmetric := 0, neigh := 2, installed := True\<rparr>] \<and>
   consider_route example_env 1
     (example_pair\<lparr>routes := [example_route\<lparr>installed := True\<rparr>,
         example_route\<lparr>metric := 110, refmetric := 60, neigh := 2\<rparr>]\<rparr>) =
     example_pair\<lparr>routes := [example_route\<lparr>installed := True\<rparr>,
         example_route\<lparr>metric := 110, refmetric := 60, neigh := 2\<rparr>]\<rparr>"
proof -
  let ?s = "example_pair\<lparr>routes := [example_route\<lparr>installed := True\<rparr>,
         example_route\<lparr>metric := 110, refmetric := 60, neigh := 2\<rparr>]\<rparr>"
  have h1: "1 < numroutes example_pair" "1 < numroutes ?s"
    by (simp_all add: example_pair_def numroutes_def)
  have h2: "\<not> installed (routes example_pair ! 1)" "\<not> installed (routes ?s ! 1)"
    by (simp_all add: example_pair_def example_route_def)
  have h3: "route_feasible example_env (routes example_pair ! 1) example_pair"
    "route_feasible example_env (routes ?s ! 1) ?s"
    by (simp_all add: example_defs example_pair_def eval_defs)
  have h4: "\<not> find_xroute example_env (src_prefix (srcs example_pair ! src (routes example_pair ! 1)))
      (src_plen (srcs example_pair ! src (routes example_pair ! 1)))"
    "\<not> find_xroute example_env (src_prefix (srcs ?s ! src (routes ?s ! 1)))
      (src_plen (srcs ?s ! src (routes ?s ! 1)))"
    by (simp_all add: example_env_def)
  have h5: "Some 0 = find_installed_route (src_prefix (srcs example_pair ! src (routes example_pair ! 1)))
      (src_plen (srcs example_pair ! src (routes example_pair ! 1))) example_pair"
    "Some 0 = find_installed_route (src_prefix (srcs ?s ! src (routes ?s ! 1)))
      (src_plen (srcs ?s ! src (routes ?s ! 1))) ?s"
    by (simp_all add: example_defs example_pair_def eval_defs)
  have pfx: "find_installed_route 32 64 example_pair = Some 0"
    by (simp add: example_defs example_pair_def eval_defs)
  note a = consider_route_decision [OF h1(1) h2(1) h3(1) h4(1) h5(1)]
  note b = consider_route_decision [OF h1(2) h2(2) h3(2) h4(2) h5(2)]
  have a': "routes (consider_route example_env 1 example_pair) =
     [example_route, example_route\<lparr>metric := 50, refmetric := 0, neigh := 2, installed := True\<rparr>]"
    using a by (simp add: example_defs example_pair_def eval_defs)
  have b': "consider_route example_env 1 ?s = ?s"
    using b by (simp add: example_defs example_pair_def eval_defs)
  show ?thesis
    using h1(1) h2(1) h3(1) pfx a' b' by simp
qed

subsection \<open>Installed routes and the metric INFINITY (C4)\<close>

lemma installed_finite_nth:
  "installed_finite s \<longleftrightarrow>
     (\<forall>j<numroutes s. installed (routes s ! j) \<longrightarrow> metric (routes s ! j) < INFINITY)"
  by (simp add: installed_finite_def list_all_length numroutes_def)

text \<open>
  Claim C4, as stated, fails. A retraction in an empty table is feasible, no route is
  installed for its prefix, and \<^verbatim>\<open>consider_route\<close> installs it with the metric \<open>INFINITY\<close>;
  and \<^verbatim>\<open>update_route_metric\<close> gives a stale installed route the metric \<open>INFINITY\<close> and
  leaves it installed.
\<close>

theorem installed_finite_counterexample:
  "installed_finite (example_state\<lparr>routes := [example_retraction]\<rparr>) \<and>
   routes (consider_route example_env 0 (example_state\<lparr>routes := [example_retraction]\<rparr>)) =
     [example_retraction\<lparr>installed := True\<rparr>] \<and>
   \<not> installed_finite
       (consider_route example_env 0 (example_state\<lparr>routes := [example_retraction]\<rparr>)) \<and>
   installed_finite (example_state\<lparr>routes := [example_stale]\<rparr>) \<and>
   routes (update_route_metric example_env 0 (example_state\<lparr>routes := [example_stale]\<rparr>)) =
     [example_stale\<lparr>seqno := 6, refmetric := 65535, metric := 65535\<rparr>] \<and>
   \<not> installed_finite
       (update_route_metric example_env 0 (example_state\<lparr>routes := [example_stale]\<rparr>))"
proof -
  have a: "routes (consider_route example_env 0 (example_state\<lparr>routes := [example_retraction]\<rparr>)) =
     [example_retraction\<lparr>installed := True\<rparr>]"
    by (simp add: example_defs eval_defs)
  have b: "routes (update_route_metric example_env 0 (example_state\<lparr>routes := [example_stale]\<rparr>)) =
     [example_stale\<lparr>seqno := 6, refmetric := 65535, metric := 65535\<rparr>]"
    by (simp add: example_defs eval_defs)
  show ?thesis
    unfolding installed_finite_def a b
    by (simp add: example_defs INFINITY_def)
qed

text \<open>
  Claim C4, amended. \<^verbatim>\<open>consider_route\<close> keeps every installed route at a metric below
  \<open>INFINITY\<close> whenever the candidate's metric is below \<open>INFINITY\<close> or some route is installed
  for the candidate's prefix. A candidate of metric \<open>INFINITY\<close> never takes the place of an
  installed route: with a route installed for its prefix, whatever that route's metric,
  \<^verbatim>\<open>consider_route\<close> changes nothing (no kernel request, no message). When no route is
  installed for the prefix, \<^verbatim>\<open>consider_route\<close> installs a feasible candidate without an
  xroute, whatever its metric, if the kernel accepts the \<^verbatim>\<open>ADD\<close>.
\<close>

theorem consider_route_installed_finite:
  assumes "i < numroutes s"
    and "cur = find_installed_route (src_prefix (srcs s ! src (routes s ! i)))
           (src_plen (srcs s ! src (routes s ! i))) s"
  shows
    "(installed_finite s \<and> (metric (routes s ! i) < INFINITY \<or> cur \<noteq> None) \<longrightarrow>
        installed_finite (consider_route e i s)) \<and>
     (INFINITY \<le> metric (routes s ! i) \<and> cur \<noteq> None \<longrightarrow> consider_route e i s = s) \<and>
     (\<not> installed (routes s ! i) \<and> route_feasible e (routes s ! i) s \<and>
      \<not> find_xroute e (src_prefix (srcs s ! src (routes s ! i)))
          (src_plen (srcs s ! src (routes s ! i))) \<and>
      cur = None \<and> 0 \<le> fst (kernel_reply e (length (klog s))) \<longrightarrow>
        installed (routes (consider_route e i s) ! i))"
proof (intro conjI impI)
  assume h: "installed_finite s \<and> (metric (routes s ! i) < INFINITY \<or> cur \<noteq> None)"
  from consider_route_routes [OF assms(1), of e]
  show "installed_finite (consider_route e i s)"
  proof (elim disjE exE conjE)
    assume "routes (consider_route e i s) = routes s"
    with h show ?thesis by (simp add: installed_finite_def)
  next
    assume a: "find_installed_route (fst (route_prefix (srcs s) (routes s ! i)))
          (snd (route_prefix (srcs s) (routes s ! i))) s = None"
      "routes (consider_route e i s) = (routes s)[i := (routes s ! i)\<lparr>installed := True\<rparr>]"
    with h assms(2) have "metric (routes s ! i) < INFINITY"
      by (simp add: route_prefix_def)
    with assms(1) h show ?thesis
      by (auto simp add: installed_finite_nth a(2) nth_list_update_in numroutes_def)
  next
    fix c
    assume a: "metric (routes s ! i) < INFINITY"
      "routes (consider_route e i s) =
         (routes s)[c := (routes s ! c)\<lparr>installed := False\<rparr>, i := (routes s ! i)\<lparr>installed := True\<rparr>]"
    with assms(1) h show ?thesis
      by (auto simp add: installed_finite_nth a(2) nth_list_update_in numroutes_def)
  qed
next
  assume "INFINITY \<le> metric (routes s ! i) \<and> cur \<noteq> None"
  with assms(2) obtain c where
    "find_installed_route (src_prefix (srcs s ! src (routes s ! i)))
       (src_plen (srcs s ! src (routes s ! i))) s = Some c"
    and "INFINITY \<le> metric (routes s ! i)"
    by (cases cur) auto
  then show "consider_route e i s = s"
    by (simp add: consider_route_def Let_def)
next
  assume "\<not> installed (routes s ! i) \<and> route_feasible e (routes s ! i) s \<and>
      \<not> find_xroute e (src_prefix (srcs s ! src (routes s ! i)))
          (src_plen (srcs s ! src (routes s ! i))) \<and>
      cur = None \<and> 0 \<le> fst (kernel_reply e (length (klog s)))"
  with assms show "installed (routes (consider_route e i s) ! i)"
    by (auto simp add: consider_route_def Let_def change_route_routes install_route_routes
        numroutes_def)
qed

theorem consider_route_installed_finite_witness:
  "1 < numroutes example_pair \<and> installed_finite example_pair \<and>
   metric (routes example_pair ! 1) < INFINITY \<and>
   installed (routes (consider_route example_env 1 example_pair) ! 1) \<and>
   installed_finite (consider_route example_env 1 example_pair) \<and>
   find_installed_route 32 64 (example_pair\<lparr>routes := [example_stale, example_retraction\<lparr>neigh := 2\<rparr>]\<rparr>) =
     Some 0 \<and>
   installed_finite
     (consider_route example_env 1 (example_pair\<lparr>routes := [example_stale, example_retraction\<lparr>neigh := 2\<rparr>]\<rparr>)) \<and>
   find_installed_route 32 64
     (example_pair\<lparr>routes := [example_retraction\<lparr>installed := True\<rparr>, example_retraction\<lparr>neigh := 2\<rparr>]\<rparr>) =
     Some 0 \<and>
   \<not> installed_finite
     (example_pair\<lparr>routes := [example_retraction\<lparr>installed := True\<rparr>, example_retraction\<lparr>neigh := 2\<rparr>]\<rparr>) \<and>
   consider_route example_env 1
     (example_pair\<lparr>routes := [example_retraction\<lparr>installed := True\<rparr>, example_retraction\<lparr>neigh := 2\<rparr>]\<rparr>) =
     example_pair\<lparr>routes := [example_retraction\<lparr>installed := True\<rparr>, example_retraction\<lparr>neigh := 2\<rparr>]\<rparr> \<and>
   find_installed_route 32 64 (example_state\<lparr>routes := [example_retraction]\<rparr>) = None \<and>
   INFINITY \<le> metric (routes (example_state\<lparr>routes := [example_retraction]\<rparr>) ! 0) \<and>
   installed (routes (consider_route example_env 0 (example_state\<lparr>routes := [example_retraction]\<rparr>)) ! 0)"
proof -
  let ?s = "example_pair\<lparr>routes := [example_stale, example_retraction\<lparr>neigh := 2\<rparr>]\<rparr>"
  let ?u = "example_pair\<lparr>routes := [example_retraction\<lparr>installed := True\<rparr>, example_retraction\<lparr>neigh := 2\<rparr>]\<rparr>"
  let ?t = "example_state\<lparr>routes := [example_retraction]\<rparr>"
  have h1: "1 < numroutes example_pair" "1 < numroutes ?s" "0 < numroutes ?t" "1 < numroutes ?u"
    by (simp_all add: example_defs numroutes_def)
  have h2: "installed_finite example_pair" "installed_finite ?s" "\<not> installed_finite ?u"
    by (simp_all add: example_defs installed_finite_def INFINITY_def)
  have h3: "metric (routes example_pair ! 1) < INFINITY" "INFINITY \<le> metric (routes ?t ! 0)"
    "INFINITY \<le> metric (routes ?u ! 1)"
    by (simp_all add: example_defs INFINITY_def)
  have h4: "find_installed_route 32 64 ?s = Some 0" "find_installed_route 32 64 ?t = None"
    "find_installed_route 32 64 ?u = Some 0"
    by (simp_all add: example_defs eval_defs)
  have cur: "Some 0 = find_installed_route (src_prefix (srcs example_pair ! src (routes example_pair ! 1)))
           (src_plen (srcs example_pair ! src (routes example_pair ! 1))) example_pair"
    "Some 0 = find_installed_route (src_prefix (srcs ?s ! src (routes ?s ! 1)))
           (src_plen (srcs ?s ! src (routes ?s ! 1))) ?s"
    "None = find_installed_route (src_prefix (srcs ?t ! src (routes ?t ! 0)))
           (src_plen (srcs ?t ! src (routes ?t ! 0))) ?t"
    "Some 0 = find_installed_route (src_prefix (srcs ?u ! src (routes ?u ! 1)))
           (src_plen (srcs ?u ! src (routes ?u ! 1))) ?u"
    by (simp_all add: example_defs eval_defs)
  have h5: "\<not> installed (routes ?t ! 0)" "route_feasible example_env (routes ?t ! 0) ?t"
    "\<not> find_xroute example_env (src_prefix (srcs ?t ! src (routes ?t ! 0)))
          (src_plen (srcs ?t ! src (routes ?t ! 0)))"
    "0 \<le> fst (kernel_reply example_env (length (klog ?t)))"
    by (simp_all add: example_defs eval_defs)
  have inst: "installed (routes (consider_route example_env 1 example_pair) ! 1)"
    by (simp add: example_defs eval_defs)
  note a = consider_route_installed_finite [OF h1(1) cur(1), of example_env]
  note b = consider_route_installed_finite [OF h1(2) cur(2), of example_env]
  note c = consider_route_installed_finite [OF h1(3) cur(3), of example_env]
  note d = consider_route_installed_finite [OF h1(4) cur(4), of example_env]
  from a h2(1) h3(1) have 1: "installed_finite (consider_route example_env 1 example_pair)"
    by blast
  from b h2(2) have 2: "installed_finite (consider_route example_env 1 ?s)"
    by blast
  from c h5 have 3: "installed (routes (consider_route example_env 0 ?t) ! 0)"
    by blast
  from d h3(3) have 4: "consider_route example_env 1 ?u = ?u"
    by blast
  from h1(1) h2(1) h3(1) inst 1 h4(1) 2 h4(3) h2(3) 4 h4(2) h3(2) 3 show ?thesis
    by (intro conjI)
qed

subsection \<open>Termination of \<^verbatim>\<open>drop_some_routes\<close> (C5)\<close>

text \<open>
  Claim C5 (a defect of the code). The table of \<open>example_full\<close> is full (\<open>MAXROUTES = 2\<close>) and
  its first route has just been refreshed. The first loop of \<^verbatim>\<open>drop_some_routes\<close> tests it,
  flushes nothing and tests it again, for ever: the call does not return, and neither does
  the \<^verbatim>\<open>update_route\<close> that made it for a new feasible route. (By
  \<open>drop_some_routes_loop_empties\<close> the loop ends only when it has flushed the whole table.)
\<close>

theorem drop_some_routes_diverges:
  "numroutes example_full = MAXROUTES example_env \<and>
   drop_some_routes example_env example_full = None \<and>
   update_route example_env 1 32 64 5 90 3 9 example_full = None"
proof -
  have body: "drop_some_routes_body example_env 0 example_full = example_full"
    by (simp add: drop_some_routes_body_def example_defs INFINITY_def)
  have "0 < numroutes example_full"
    by (simp add: example_defs numroutes_def)
  then have loop: "drop_some_routes_loop example_env 0 example_full = None"
    using body by (rule drop_some_routes_loop_stuck)
  then have drop: "drop_some_routes example_env example_full = None"
    by (simp add: drop_some_routes_def)
  have src: "find_source example_env 1 32 64 True 5 example_full = (Some 0, example_full)"
    by (simp add: example_defs eval_defs)
  have feasible: "update_feasible example_env 1 32 64 5 90 example_full"
    by (simp add: example_defs eval_defs)
  have route: "find_route 32 64 3 9 example_full = None"
    by (simp add: example_defs eval_defs)
  have full: "numroutes example_full = MAXROUTES example_env"
    by (simp add: example_defs numroutes_def)
  have env: "\<not> martian_prefix example_env 32 64"
    "input_filter example_env 1 32 64 (neigh_id example_env 3)
       (net_ifindex example_env (neigh_network example_env 3)) = 0"
    by (simp_all add: example_env_def)
  have "update_route example_env 1 32 64 5 90 3 9 example_full = None"
    by (simp add: update_route_def env src feasible route full drop INFINITY_def)
  with full drop show ?thesis by simp
qed

subsection \<open>What \<^verbatim>\<open>drop_some_routes\<close> removes (C6)\<close>

lemma remove_slot_update:
  "remove_slot n (xs[n := y]) = remove_slot n xs"
  by (cases "n = length xs - 1") (simp_all add: remove_slot_def)

lemma flush_route_uninstalled:
  "\<not> installed (routes s ! n) \<Longrightarrow> flush_route e n s = s\<lparr>routes := remove_slot n (routes s)\<rparr>"
  by (simp add: flush_route_eq)

lemma route_candidate_prefix:
  "route_candidate e p pl f x s b \<Longrightarrow> route_prefix (srcs s) (routes s ! b) = (p, pl)"
  by (auto simp add: route_candidate_def route_prefix_def source_match_def)

lemma find_best_route_prefix:
  "find_best_route e p pl f x s = Some b \<Longrightarrow> route_prefix (srcs s) (routes s ! b) = (p, pl)"
  using find_best_route_fold [of e p pl f x s "numroutes s"]
  by (auto simp add: find_best_route_def dest: route_candidate_prefix)

lemma flush_route_routes:
  assumes "one_installed s" and "n < numroutes s"
  shows "routes (flush_route e n s) = remove_slot n (routes s) \<or>
     (\<exists>b<numroutes s - 1. \<not> installed (remove_slot n (routes s) ! b) \<and>
        routes (flush_route e n s) =
          (remove_slot n (routes s))[b := (remove_slot n (routes s) ! b)\<lparr>installed := True\<rparr>])"
proof (cases "installed (routes s ! n)")
  case False
  then show ?thesis by (simp add: flush_route_uninstalled)
next
  case True
  let ?P = "route_prefix (srcs s) (routes s ! n)"
  define s2 where "s2 = (uninstall_route e n s)\<lparr>routes := remove_slot n (routes s)\<rparr>"
  have s2: "routes s2 = remove_slot n (routes s)" "srcs s2 = srcs s" "numroutes s2 = numroutes s - 1"
    by (simp_all add: s2_def numroutes_def)
  have k: "src (routes (uninstall_route e n s) ! n) = src (routes s ! n)"
    using assms(2) by (simp add: uninstall_route_routes numroutes_def)
  have res: "flush_route e n s = route_lost e (src (routes s ! n)) (int (metric (routes s ! n))) s2"
    using True assms(2)
    by (simp add: flush_route_eq Let_def s2_def uninstall_route_routes remove_slot_update
        numroutes_def)
  have none: "find_installed_route (fst ?P) (snd ?P) s2 = None"
    unfolding find_installed_route_None
  proof (intro allI impI)
    fix j
    assume j: "j < numroutes s2" and inst: "installed (routes s2 ! j)"
    let ?g = "if j = n then numroutes s - 1 else j"
    from j have j': "j < length (routes s) - 1" by (simp add: s2 numroutes_def)
    then have nth: "routes s2 ! j = routes s ! ?g"
      by (simp add: s2 nth_remove_slot numroutes_def)
    from j' have g: "?g < numroutes s" "?g \<noteq> n" by (auto simp add: numroutes_def)
    show "route_prefix (srcs s2) (routes s2 ! j) \<noteq> (fst ?P, snd ?P)"
    proof
      assume "route_prefix (srcs s2) (routes s2 ! j) = (fst ?P, snd ?P)"
      then have "route_prefix (srcs s) (routes s ! ?g) = ?P"
        unfolding nth s2(2) by simp
      moreover from inst have "installed (routes s ! ?g)"
        by (simp only: nth)
      ultimately have "?g = n"
        using assms True g(1) unfolding one_installed_nth by blast
      with g(2) show False by simp
    qed
  qed
  show ?thesis
  proof (cases "find_best_route e (fst ?P) (snd ?P) True None s2")
    case None
    then have "routes (flush_route e n s) = routes s2"
      by (simp add: res route_lost_def Let_def route_prefix_def s2(2))
    then show ?thesis by (simp add: s2)
  next
    case (Some b)
    have b: "b < numroutes s2" using Some by (rule find_best_route_bound)
    have pb: "route_prefix (srcs s2) (routes s2 ! b) = (fst ?P, snd ?P)"
      using Some by (rule find_best_route_prefix)
    have lost: "routes (flush_route e n s) = routes (consider_route e b s2)"
      using Some by (simp add: res route_lost_def Let_def route_prefix_def s2(2))
    from consider_route_routes [OF b, of e] none
    have "routes (consider_route e b s2) = routes s2 \<or>
        (\<not> installed (routes s2 ! b) \<and>
         routes (consider_route e b s2) = (routes s2)[b := (routes s2 ! b)\<lparr>installed := True\<rparr>])"
      by (auto simp add: pb)
    with b show ?thesis
      unfolding lost s2 by auto
  qed
qed

lemma flush_route_keeps:
  assumes "one_installed s" and "n < numroutes s"
    and "r \<in> set (routes s)" and "installed r" and "r \<noteq> routes s ! n"
  shows "r \<in> set (routes (flush_route e n s))"
proof -
  from assms(3) obtain m where m: "m < length (routes s)" "routes s ! m = r"
    by (auto simp add: in_set_conv_nth)
  with assms(5) have "m \<noteq> n" by auto
  with assms(2) m have mem: "r \<in> set (remove_slot n (routes s))"
    using remove_slot_keeps [of n "routes s" m] by (simp add: numroutes_def)
  from flush_route_routes [OF assms(1,2), of e] show ?thesis
  proof (elim disjE exE conjE)
    assume "routes (flush_route e n s) = remove_slot n (routes s)"
    with mem show ?thesis by simp
  next
    fix b
    assume b: "\<not> installed (remove_slot n (routes s) ! b)"
      "routes (flush_route e n s) =
         (remove_slot n (routes s))[b := (remove_slot n (routes s) ! b)\<lparr>installed := True\<rparr>]"
    from mem obtain m' where m': "m' < length (remove_slot n (routes s))"
      "remove_slot n (routes s) ! m' = r"
      by (auto simp add: in_set_conv_nth)
    with b(1) assms(4) have "m' \<noteq> b" by auto
    with m' have "routes (flush_route e n s) ! m' = r" "m' < length (routes (flush_route e n s))"
      by (simp_all add: b(2))
    then show ?thesis by (metis nth_mem)
  qed
qed

lemma drop_some_routes_body_keeps:
  assumes "one_installed s" and "i < numroutes s"
    and "r \<in> set (routes s)" and "installed r"
    and "metric r < INFINITY \<or> \<not> time r < now e - 90"
  shows "r \<in> set (routes (drop_some_routes_body e i s))"
proof (cases "drop_some_routes_body e i s = s")
  case True
  with assms(3) show ?thesis by simp
next
  case False
  then have flushed: "drop_some_routes_body e i s = flush_route e i s"
    and "(\<not> installed (routes s ! i) \<or> INFINITY \<le> metric (routes s ! i)) \<and>
         time (routes s ! i) < now e - 90"
    by (auto simp add: drop_some_routes_body_def split: if_splits)
  with assms(4,5) have "r \<noteq> routes s ! i" by auto
  with assms(1-4) show ?thesis
    unfolding flushed by (rule flush_route_keeps)
qed

lemma drop_some_routes_upto_keeps:
  assumes "one_installed s" and "r \<in> set (routes s)" and "installed r"
    and "metric r < INFINITY \<or> \<not> time r < now e - 90"
  shows "r \<in> set (routes (drop_some_routes_upto n e i s))"
  using assms(1,2)
proof (induction n arbitrary: s)
  case 0
  then show ?case by simp
next
  case (Suc n)
  show ?case
  proof (cases "i < numroutes s")
    case False
    with Suc.prems show ?thesis by simp
  next
    case True
    have "one_installed (drop_some_routes_body e i s)"
      using Suc.prems(1) by (rule one_installed_drop_some_routes_body)
    moreover have "r \<in> set (routes (drop_some_routes_body e i s))"
      using Suc.prems(1) True Suc.prems(2) assms(3,4) by (rule drop_some_routes_body_keeps)
    ultimately show ?thesis
      using True Suc.IH by simp
  qed
qed

lemma drop_some_routes_loop_upto:
  assumes "drop_some_routes_loop e i s = Some s'"
  shows "\<exists>n. s' = drop_some_routes_upto n e i s"
proof (rule drop_some_routes_loop.raw_induct
    [where P = "\<lambda>e i s s'. \<exists>n. s' = drop_some_routes_upto n e i s", OF _ assms])
  fix loop :: "env \<Rightarrow> nat \<Rightarrow> state \<Rightarrow> state option" and e i s s'
  assume IH: "\<And>e i s s'. loop e i s = Some s' \<Longrightarrow> \<exists>n. s' = drop_some_routes_upto n e i s"
    and step: "(if i < numroutes s then loop e i (drop_some_routes_body e i s) else Some s) = Some s'"
  show "\<exists>n. s' = drop_some_routes_upto n e i s"
  proof (cases "i < numroutes s")
    case True
    with step have "loop e i (drop_some_routes_body e i s) = Some s'" by simp
    from IH [OF this] obtain n where "s' = drop_some_routes_upto n e i (drop_some_routes_body e i s)"
      by blast
    with True have "s' = drop_some_routes_upto (Suc n) e i s" by simp
    then show ?thesis by blast
  next
    case False
    with step have "s' = drop_some_routes_upto 0 e i s" by simp
    then show ?thesis by blast
  qed
qed

lemma drop_some_routes_upto_srcs [simp]: "srcs (drop_some_routes_upto n e i s) = srcs s"
  by (induction n arbitrary: s) (simp_all add: drop_some_routes_body_def)

lemma one_installed_drop_some_routes_upto:
  "one_installed s \<Longrightarrow> one_installed (drop_some_routes_upto n e i s)"
  by (induction n arbitrary: s) (simp_all add: one_installed_drop_some_routes_body)

lemma route_feasible_srcs:
  "srcs s' = srcs s \<Longrightarrow> route_feasible e r s' = route_feasible e r s"
  by (auto simp add: route_feasible_def update_feasible_def find_source_def split: option.splits)

lemma drop_unfeasible_keeps:
  assumes "one_installed s" and "r \<in> set (routes s)" and "installed r"
    and "route_feasible e r s" and "drop_unfeasible e s = Some s'"
  shows "r \<in> set (routes s')"
proof -
  from assms(5) obtain k where k: "k < numroutes s" "\<not> route_feasible e (routes s ! k) s"
    "s' = flush_route e k s"
    by (auto simp add: drop_unfeasible_def find_upt_Some split: option.splits)
  with assms(4) have "r \<noteq> routes s ! k" by auto
  with assms(1) k(1) assms(2,3) show ?thesis
    unfolding k(3) by (rule flush_route_keeps)
qed

lemma drop_uninstalled_keeps:
  assumes "r \<in> set (routes s)" and "installed r" and "drop_uninstalled e s = Some s'"
  shows "r \<in> set (routes s')"
proof -
  from assms(3) obtain k where k: "k < numroutes s" "\<not> installed (routes s ! k)"
    "s' = flush_route e k s"
    by (auto simp add: drop_uninstalled_def find_upt_Some split: option.splits)
  from assms(1) obtain m where m: "m < length (routes s)" "routes s ! m = r"
    by (auto simp add: in_set_conv_nth)
  with k(2) assms(2) have "m \<noteq> k" by auto
  with k(1) m have "r \<in> set (remove_slot k (routes s))"
    using remove_slot_keeps [of k "routes s" m] by (simp add: numroutes_def)
  with k(2,3) show ?thesis
    by (simp add: flush_route_uninstalled)
qed

text \<open>
  Claim C6, as stated, fails. In \<open>example_old_pair\<close> the first route is installed, has the
  metric \<open>INFINITY\<close> and is older than 90 s; the second is not installed, and old as well.
  The first loop of \<^verbatim>\<open>drop_some_routes\<close> flushes the installed route, then the other one, and
  the call returns with an empty table. And of an installed route that is not feasible and
  a feasible route that is not installed, the second loop flushes the installed one.
\<close>

theorem drop_some_routes_counterexample:
  "installed (routes example_old_pair ! 0) \<and> \<not> installed (routes example_old_pair ! 1) \<and>
   (\<exists>s'. drop_some_routes example_env example_old_pair = Some s' \<and> routes s' = []) \<and>
   (\<exists>s'. drop_unfeasible example_env
        (example_state\<lparr>routes := [example_route\<lparr>refmetric := 200, installed := True\<rparr>,
           example_route\<lparr>neigh := 2\<rparr>]\<rparr>) = Some s' \<and>
      routes s' = [example_route\<lparr>neigh := 2, installed := True\<rparr>])"
proof -
  define s1 where "s1 = example_old_pair
    \<lparr>routes := [example_route\<lparr>time := 800, neigh := 2\<rparr>],
     klog := [KernelRoute ROUTE_FLUSH 32 64 7 1 255 None 0 0],
     msgs := [SendUpdate None True 32 64]\<rparr>"
  define s2 where "s2 = s1\<lparr>routes := []\<rparr>"
  have size: "0 < numroutes example_old_pair" "0 < numroutes s1" "\<not> 0 < numroutes s2"
    by (simp_all add: s1_def s2_def numroutes_def example_defs)
  have body1: "drop_some_routes_body example_env 0 example_old_pair = s1"
    by (simp add: s1_def drop_some_routes_body_def remove_slot_def example_defs eval_defs)
  have body2: "drop_some_routes_body example_env 0 s1 = s2"
    by (simp add: s1_def s2_def drop_some_routes_body_def remove_slot_def example_defs eval_defs)
  have "drop_some_routes_loop example_env 0 example_old_pair = Some s2"
    by (simp add: drop_some_routes_loop_step size body1 body2 drop_some_routes_loop_exit)
  moreover have "numroutes s2 < MAXROUTES example_env"
    by (simp add: s2_def numroutes_def example_env_def)
  ultimately have "drop_some_routes example_env example_old_pair = Some s2"
    by (simp add: drop_some_routes_def)
  moreover have "routes s2 = []"
    by (simp add: s2_def)
  moreover have "\<exists>s'. drop_unfeasible example_env
        (example_state\<lparr>routes := [example_route\<lparr>refmetric := 200, installed := True\<rparr>,
           example_route\<lparr>neigh := 2\<rparr>]\<rparr>) = Some s' \<and>
      routes s' = [example_route\<lparr>neigh := 2, installed := True\<rparr>]"
    by (simp add: drop_unfeasible_def example_defs eval_defs)
  ultimately show ?thesis
    by (simp add: example_defs)
qed

lemma drop_some_routes_never_returns:
  assumes "one_installed s" and "r \<in> set (routes s)" and "installed r"
    and "metric r < INFINITY \<or> \<not> time r < now e - 90"
  shows "drop_some_routes_loop e 0 s = None" and "drop_some_routes e s = None"
proof -
  show "drop_some_routes_loop e 0 s = None"
  proof (cases "drop_some_routes_loop e 0 s")
    case (Some s')
    then obtain m where "s' = drop_some_routes_upto m e 0 s"
      using drop_some_routes_loop_upto by blast
    with assms have "r \<in> set (routes s')"
      by (simp add: drop_some_routes_upto_keeps)
    moreover from Some have "numroutes s' = 0"
      by (rule drop_some_routes_loop_empties)
    ultimately show ?thesis
      by (simp add: numroutes_def)
  qed simp
  then show "drop_some_routes e s = None"
    by (simp add: drop_some_routes_def)
qed

text \<open>
  Claim C6, amended. \<^verbatim>\<open>drop_some_routes\<close> removes an installed route only if it has a metric
  of at least \<open>INFINITY\<close> and is older than 90 s (first loop), or is not feasible (second
  loop), whether or not some route is not installed. In a table with at most one installed
  route per prefix: an installed route whose metric is below \<open>INFINITY\<close>, or that was
  refreshed in the last 90 s, is in the table after any number of iterations of the first
  loop; an installed feasible route is in the table after the second loop; and an installed
  route is in the table after the third loop. (With such a route in the table the first loop
  does not end, \<open>drop_some_routes_never_returns\<close>, so the first part is stated for every number
  of iterations.)
\<close>

theorem drop_some_routes_keeps_installed:
  assumes "one_installed s" and "r \<in> set (routes s)" and "installed r"
  shows
    "(metric r < INFINITY \<or> \<not> time r < now e - 90 \<longrightarrow>
        r \<in> set (routes (drop_some_routes_upto n e 0 s))) \<and>
     (route_feasible e r s \<longrightarrow>
        (\<forall>s'. drop_unfeasible e s = Some s' \<longrightarrow> r \<in> set (routes s'))) \<and>
     (\<forall>s'. drop_uninstalled e s = Some s' \<longrightarrow> r \<in> set (routes s'))"
proof (intro conjI impI allI)
  assume "metric r < INFINITY \<or> \<not> time r < now e - 90"
  with assms show "r \<in> set (routes (drop_some_routes_upto n e 0 s))"
    by (rule drop_some_routes_upto_keeps)
next
  fix s'
  assume "route_feasible e r s" "drop_unfeasible e s = Some s'"
  with assms show "r \<in> set (routes s')"
    by (rule drop_unfeasible_keeps)
next
  fix s'
  assume "drop_uninstalled e s = Some s'"
  with assms(2,3) show "r \<in> set (routes s')"
    by (rule drop_uninstalled_keeps)
qed

theorem drop_some_routes_keeps_installed_witness:
  "one_installed example_old_table \<and>
   installed (routes example_old_table ! 0) \<and> INFINITY \<le> metric (routes example_old_table ! 0) \<and>
   installed (routes example_old_table ! 1) \<and> metric (routes example_old_table ! 1) < INFINITY \<and>
   \<not> installed (routes example_old_table ! 2) \<and>
   routes (drop_some_routes_upto (Suc (Suc (Suc 0))) (example_env\<lparr>MAXROUTES := 3\<rparr>) 0 example_old_table) =
     [routes example_old_table ! 1] \<and>
   routes example_old_table ! 1 \<in>
     set (routes (drop_some_routes_upto (Suc (Suc (Suc 0))) (example_env\<lparr>MAXROUTES := 3\<rparr>) 0 example_old_table)) \<and>
   (\<exists>s'. drop_uninstalled example_env example_pair = Some s' \<and>
      routes s' = [routes example_pair ! 0] \<and> routes example_pair ! 0 \<in> set (routes s')) \<and>
   (\<exists>s'. drop_unfeasible example_env
        (example_pair\<lparr>routes := [routes example_pair ! 0, example_route\<lparr>refmetric := 200, neigh := 2\<rparr>]\<rparr>) =
        Some s' \<and> routes example_pair ! 0 \<in> set (routes s'))"
proof -
  let ?r = "routes example_old_table ! 1"
  let ?q = "routes example_pair ! 0"
  let ?u = "example_pair\<lparr>routes := [routes example_pair ! 0, example_route\<lparr>refmetric := 200, neigh := 2\<rparr>]\<rparr>"
  have inv: "one_installed example_old_table" "one_installed example_pair" "one_installed ?u"
    by (simp_all add: one_installed_def route_prefix_def example_defs)
  have r: "?r \<in> set (routes example_old_table)" "installed ?r" "metric ?r < INFINITY"
    by (simp_all add: example_defs INFINITY_def)
  have q: "?q \<in> set (routes example_pair)" "?q \<in> set (routes ?u)" "installed ?q"
    by (simp_all add: example_defs)
  have others: "installed (routes example_old_table ! 0)"
    "INFINITY \<le> metric (routes example_old_table ! 0)" "\<not> installed (routes example_old_table ! 2)"
    by (simp_all add: example_defs INFINITY_def)
  define t1 where "t1 = example_old_table
    \<lparr>routes := [example_route\<lparr>time := 800, neigh := 2\<rparr>,
       example_route\<lparr>src := 1, time := 800, installed := True\<rparr>],
     klog := [KernelRoute ROUTE_FLUSH 32 64 7 1 255 None 0 0],
     msgs := [SendUpdate None True 32 64]\<rparr>"
  define t2 where "t2 = t1\<lparr>routes := [example_route\<lparr>src := 1, time := 800, installed := True\<rparr>]\<rparr>"
  have size: "0 < numroutes example_old_table" "0 < numroutes t1" "0 < numroutes t2"
    by (simp_all add: t1_def t2_def numroutes_def example_defs)
  have body1: "drop_some_routes_body (example_env\<lparr>MAXROUTES := 3\<rparr>) 0 example_old_table = t1"
    by (simp add: t1_def drop_some_routes_body_def remove_slot_def example_defs eval_defs)
  have body2: "drop_some_routes_body (example_env\<lparr>MAXROUTES := 3\<rparr>) 0 t1 = t2"
    by (simp add: t1_def t2_def drop_some_routes_body_def remove_slot_def example_defs eval_defs)
  have body3: "drop_some_routes_body (example_env\<lparr>MAXROUTES := 3\<rparr>) 0 t2 = t2"
    by (simp add: t1_def t2_def drop_some_routes_body_def example_defs INFINITY_def)
  have "drop_some_routes_upto (Suc (Suc (Suc 0))) (example_env\<lparr>MAXROUTES := 3\<rparr>) 0 example_old_table = t2"
    by (simp add: size body1 body2 body3)
  then have run: "routes (drop_some_routes_upto (Suc (Suc (Suc 0))) (example_env\<lparr>MAXROUTES := 3\<rparr>) 0 example_old_table) = [?r]"
    by (simp add: t2_def example_defs)
  have feasible: "route_feasible example_env ?q ?u"
    by (simp add: example_defs eval_defs)
  obtain s3 where s3: "drop_uninstalled example_env example_pair = Some s3" "routes s3 = [?q]"
    by (simp add: drop_uninstalled_def example_defs eval_defs)
  obtain s2 where s2: "drop_unfeasible example_env ?u = Some s2"
    by (simp add: drop_unfeasible_def example_defs eval_defs)
  note a = drop_some_routes_keeps_installed
    [OF inv(1) r(1,2), of "example_env\<lparr>MAXROUTES := 3\<rparr>" "Suc (Suc (Suc 0))"]
  note b = drop_some_routes_keeps_installed [OF inv(2) q(1,3), of example_env 0]
  note c = drop_some_routes_keeps_installed [OF inv(3) q(2,3), of example_env 0]
  from a r(3) have 1: "?r \<in> set (routes (drop_some_routes_upto (Suc (Suc (Suc 0))) (example_env\<lparr>MAXROUTES := 3\<rparr>) 0
      example_old_table))"
    by blast
  from b s3 have 2: "\<exists>s'. drop_uninstalled example_env example_pair = Some s' \<and>
      routes s' = [?q] \<and> ?q \<in> set (routes s')"
    by blast
  from c feasible s2 have 3: "\<exists>s'. drop_unfeasible example_env ?u = Some s' \<and> ?q \<in> set (routes s')"
    by blast
  from inv(1) others(1,2) r(2,3) others(3) run 1 2 3 show ?thesis
    by (intro conjI)
qed

subsection \<open>Rejected updates (C7)\<close>

lemma find_route_find_source:
  assumes "find_source e a p pl c sq s = (found, s0)" and "sources_valid s"
  shows "find_route p' pl' n nh s0 = find_route p' pl' n nh s"
proof (cases found)
  case None
  with assms(1) find_source_None [of e a p pl c sq s s0] show ?thesis by simp
next
  case (Some k)
  from find_source_Some(4,7) [OF assms(1) [unfolded Some]]
  obtain new where s0: "routes s0 = routes s" "srcs s0 = srcs s \<or> srcs s0 = srcs s @ [new]"
    by blast
  have "\<And>i. i < numroutes s \<Longrightarrow> srcs s0 ! src (routes s ! i) = srcs s ! src (routes s ! i)"
    using s0(2) assms(2) by (auto simp add: sources_valid_nth nth_append)
  then show ?thesis
    unfolding find_route_def using s0(1)
    by (auto simp add: numroutes_def intro!: find_cong)
qed

text \<open>
  A call of \<^verbatim>\<open>update_route\<close> that returns before the test of the size of the table returns
  none and leaves the route table as it was, with no request to the kernel and no message:
  for a martian prefix; for an add-metric of the filter that is at least \<open>INFINITY\<close>; when
  no source can be allocated; and for a retraction of a route that is not in the table.
\<close>

lemma update_route_rejected:
  assumes "sources_valid s"
    and "find_source e a p pl True sq s = (found, s0)"
    and "martian_prefix e p pl \<or>
         INFINITY \<le> input_filter e a p pl (neigh_id e n) (net_ifindex e (neigh_network e n)) \<or>
         found = None \<or>
         (find_route p pl n nh s = None \<and> INFINITY \<le> unat rm)"
  shows "\<exists>s'. update_route e a p pl sq rm n nh s = Some (None, s') \<and>
           routes s' = routes s \<and> klog s' = klog s \<and> msgs s' = msgs s"
proof (cases "martian_prefix e p pl \<or>
    INFINITY \<le> input_filter e a p pl (neigh_id e n) (net_ifindex e (neigh_network e n))")
  case True
  then show ?thesis
    by (auto simp add: update_route_def Let_def)
next
  case False
  show ?thesis
  proof (cases found)
    case None
    with assms(2) find_source_None [of e a p pl True sq s s0] have "s0 = s" by simp
    with False None assms(2) show ?thesis
      by (simp add: update_route_def Let_def)
  next
    case (Some k)
    note k = find_source_Some [OF assms(2) [unfolded Some]]
    have route: "find_route p pl n nh s0 = find_route p pl n nh s"
      using assms(2,1) by (rule find_route_find_source)
    from False Some assms(3)
    have retraction: "find_route p pl n nh s = None" "INFINITY \<le> unat rm"
      by auto
    have "fst (find_source e a p pl False 0 s0) = Some k \<or>
          (\<exists>k'. fst (find_source e a p pl False 0 s0) = Some k') \<or>
          fst (find_source e a p pl False 0 s0) = None"
      by (cases "fst (find_source e a p pl False 0 s0)") auto
    then have "update_feasible e a p pl sq rm s0"
      using retraction(2)
      by (auto simp add: update_feasible_def Let_def split: option.splits)
    with False Some assms(2) retraction route k(4,5,6) show ?thesis
      by (simp add: update_route_def Let_def)
  qed
qed

lemma update_route_rejected_examples:
  "martian_prefix example_env 0 64 \<and>
   (\<exists>s'. update_route example_env 1 0 64 5 90 1 7 example_state = Some (None, s') \<and>
      routes s' = routes example_state \<and> klog s' = klog example_state \<and>
      msgs s' = msgs example_state) \<and>
   (\<exists>s'. update_route example_env 66 32 64 5 90 1 7 example_state = Some (None, s') \<and>
      routes s' = routes example_state \<and> klog s' = klog example_state \<and>
      msgs s' = msgs example_state) \<and>
   (\<exists>s'. update_route (example_env\<lparr>MAXSRCS := 1\<rparr>) 9 32 64 5 90 1 7 example_state =
        Some (None, s') \<and>
      routes s' = routes example_state \<and> klog s' = klog example_state \<and>
      msgs s' = msgs example_state) \<and>
   find_route 32 64 5 9 example_state = None \<and>
   (\<exists>s'. update_route example_env 1 32 64 5 65535 5 9 example_state = Some (None, s') \<and>
      routes s' = routes example_state \<and> klog s' = klog example_state \<and>
      msgs s' = msgs example_state)"
proof -
  have valid: "sources_valid example_state"
    by (simp add: example_defs sources_valid_def)
  have pair: "\<And>e a p pl sq s. find_source e a p pl True sq s =
      (fst (find_source e a p pl True sq s), snd (find_source e a p pl True sq s))"
    by simp
  have martian: "martian_prefix example_env 0 64"
    by (simp add: example_env_def)
  have filtered: "INFINITY \<le> input_filter example_env 66 32 64 (neigh_id example_env 1)
      (net_ifindex example_env (neigh_network example_env 1))"
    by (simp add: example_env_def INFINITY_def)
  have nosrc: "fst (find_source (example_env\<lparr>MAXSRCS := 1\<rparr>) 9 32 64 True 5 example_state) = None"
    by (simp add: example_defs eval_defs)
  have noroute: "find_route 32 64 5 9 example_state = None"
    by (simp add: example_defs eval_defs)
  have retract: "INFINITY \<le> unat (65535 :: 16 word)"
    by (simp add: INFINITY_def)
  note w1 = update_route_rejected
    [where e = example_env and a = 1 and p = 0 and pl = 64 and sq = 5 and rm = 90 and n = 1
       and nh = 7 and s = example_state, OF valid pair disjI1, OF martian]
  note w2 = update_route_rejected
    [where e = example_env and a = 66 and p = 32 and pl = 64 and sq = 5 and rm = 90 and n = 1
       and nh = 7 and s = example_state, OF valid pair disjI2, OF disjI1, OF filtered]
  note w3 = update_route_rejected
    [where e = "example_env\<lparr>MAXSRCS := 1\<rparr>" and a = 9 and p = 32 and pl = 64 and sq = 5
       and rm = 90 and n = 1 and nh = 7 and s = example_state,
     OF valid pair disjI2, OF disjI2, OF disjI1, OF nosrc]
  note w4 = update_route_rejected
    [where e = example_env and a = 1 and p = 32 and pl = 64 and sq = 5 and rm = 65535 and n = 5
       and nh = 9 and s = example_state,
     OF valid pair disjI2, OF disjI2, OF disjI2, OF conjI, OF noroute retract]
  from martian w1 w2 w3 noroute w4 show ?thesis
    by (intro conjI)
qed

text \<open>
  The last return of none, ``too many routes'', comes after \<^verbatim>\<open>drop_some_routes\<close>, and that
  call returns only with an empty table: with \<open>0 < MAXROUTES\<close> an update for a new feasible
  route is never answered by none.
\<close>

lemma update_route_never_too_many:
  assumes "0 < MAXROUTES e" and "\<not> martian_prefix e p pl"
    and "input_filter e a p pl (neigh_id e n) (net_ifindex e (neigh_network e n)) < INFINITY"
    and "find_source e a p pl True sq s = (Some k, s0)"
    and "find_route p pl n nh s0 = None" and "update_feasible e a p pl sq rm s0"
    and "unat rm < INFINITY"
  shows "update_route e a p pl sq rm n nh s = None \<or>
         (\<exists>s'. update_route e a p pl sq rm n nh s = Some (Some 0, s')) \<or>
         (numroutes s0 < MAXROUTES e \<and>
          (\<exists>s'. update_route e a p pl sq rm n nh s = Some (Some (numroutes s0), s')))"
proof (cases "MAXROUTES e \<le> numroutes s0")
  case True
  show ?thesis
  proof (cases "drop_some_routes e s0")
    case None
    with True assms show ?thesis
      by (simp add: update_route_def Let_def)
  next
    case (Some s1)
    then have "numroutes s1 = 0"
      by (rule drop_some_routes_empties)
    with True Some assms show ?thesis
      by (simp add: update_route_def Let_def)
  qed
next
  case False
  with assms show ?thesis
    by (simp add: update_route_def Let_def)
qed

text \<open>
  Claim C7 (a defect of the code). The table of \<open>example_busy\<close> is full (\<open>MAXROUTES = 2\<close>):
  two installed, feasible routes, both just refreshed, so that none of the three passes of
  \<^verbatim>\<open>drop_some_routes\<close> has a route to drop and the table is still full after it. A feasible
  update for a new route is to be answered by none, with the table as it was. The call
  does not return: the first loop of \<^verbatim>\<open>drop_some_routes\<close> tests the first route for ever
  (the defect of C5).
\<close>

theorem update_route_full_table:
  "numroutes example_busy = MAXROUTES example_env \<and>
   installed (routes example_busy ! 0) \<and> installed (routes example_busy ! 1) \<and>
   route_feasible example_env (routes example_busy ! 0) example_busy \<and>
   route_feasible example_env (routes example_busy ! 1) example_busy \<and>
   \<not> time (routes example_busy ! 0) < now example_env - 90 \<and>
   \<not> time (routes example_busy ! 1) < now example_env - 90 \<and>
   drop_unfeasible example_env example_busy = None \<and>
   drop_uninstalled example_env example_busy = None \<and>
   find_route 32 64 3 9 example_busy = None \<and>
   update_feasible example_env 1 32 64 5 90 example_busy \<and>
   update_route example_env 1 32 64 5 90 3 9 example_busy = None"
proof -
  have body: "drop_some_routes_body example_env 0 example_busy = example_busy"
    by (simp add: drop_some_routes_body_def example_defs INFINITY_def)
  have "0 < numroutes example_busy"
    by (simp add: example_defs numroutes_def)
  then have "drop_some_routes_loop example_env 0 example_busy = None"
    using body by (rule drop_some_routes_loop_stuck)
  then have drop: "drop_some_routes example_env example_busy = None"
    by (simp add: drop_some_routes_def)
  have src: "find_source example_env 1 32 64 True 5 example_busy = (Some 0, example_busy)"
    by (simp add: example_defs eval_defs)
  have feasible: "update_feasible example_env 1 32 64 5 90 example_busy"
    by (simp add: example_defs eval_defs)
  have route: "find_route 32 64 3 9 example_busy = None"
    by (simp add: example_defs eval_defs)
  have full: "numroutes example_busy = MAXROUTES example_env"
    by (simp add: example_defs numroutes_def)
  have env: "\<not> martian_prefix example_env 32 64"
    "input_filter example_env 1 32 64 (neigh_id example_env 3)
       (net_ifindex example_env (neigh_network example_env 3)) = 0"
    by (simp_all add: example_env_def)
  have hang: "update_route example_env 1 32 64 5 90 3 9 example_busy = None"
    by (simp add: update_route_def env src feasible route full drop INFINITY_def)
  have routes: "installed (routes example_busy ! 0)" "installed (routes example_busy ! 1)"
    "\<not> time (routes example_busy ! 0) < now example_env - 90"
    "\<not> time (routes example_busy ! 1) < now example_env - 90"
    by (simp_all add: example_defs)
  have ok: "route_feasible example_env (routes example_busy ! 0) example_busy"
    "route_feasible example_env (routes example_busy ! 1) example_busy"
    by (simp_all add: example_defs eval_defs)
  have passes: "drop_unfeasible example_env example_busy = None"
    "drop_uninstalled example_env example_busy = None"
    by (simp_all add: drop_unfeasible_def drop_uninstalled_def example_defs eval_defs)
  from full routes ok passes route feasible hang show ?thesis
    by (intro conjI)
qed

subsection \<open>Kernel failures (C8)\<close>

text \<open>
  What the three functions do when the kernel refuses the request. \<^verbatim>\<open>install_route\<close> decides
  on the value of \<^verbatim>\<open>errno\<close> that \<^verbatim>\<open>perror\<close> leaves, not on the one the kernel gave.
  After \<^verbatim>\<open>uninstall_route\<close> the route is not installed, whatever the kernel answers. When
  the kernel refuses the \<^verbatim>\<open>MODIFY\<close> of \<^verbatim>\<open>change_route_metric\<close>, the metric of the route is
  left as it was.
\<close>

lemma install_route_refused:
  assumes "i < numroutes s" and "\<not> installed (routes s ! i)"
    and "fst (kernel_reply e (length (klog s))) < 0"
  shows "perror e (snd (kernel_reply e (length (klog s)))) \<noteq> EEXIST \<Longrightarrow>
           routes (install_route e i s) = routes s"
    and "perror e (snd (kernel_reply e (length (klog s)))) = EEXIST \<Longrightarrow>
           installed (routes (install_route e i s) ! i)"
    and "klog (install_route e i s) \<noteq> klog s"
  using assms by (auto simp add: numroutes_def install_route_def kernel_route_def Let_def)

lemma uninstall_route_clears:
  "i < numroutes s \<Longrightarrow> \<not> installed (routes (uninstall_route e i s) ! i)"
  by (auto simp add: numroutes_def uninstall_route_def kernel_route_def Let_def)

lemma change_route_metric_refused:
  assumes "i < numroutes s" and "installed (routes s ! i)"
    and "fst (kernel_reply e (length (klog s))) < 0"
  shows "metric (routes (change_route_metric e i m s) ! i) = metric (routes s ! i)"
    and "klog (change_route_metric e i m s) \<noteq> klog s"
  using assms by (auto simp add: numroutes_def change_route_metric_def kernel_route_def Let_def)

text \<open>
  Claim C8 (a defect of the code). \<^verbatim>\<open>install_route\<close> calls \<^verbatim>\<open>perror\<close> between the failed
  \<^verbatim>\<open>ADD\<close> and the test \<^verbatim>\<open>errno != EEXIST\<close>, and \<^verbatim>\<open>perror\<close> may change \<^verbatim>\<open>errno\<close>. The kernel
  refuses the \<^verbatim>\<open>ADD\<close> with \<^verbatim>\<open>EEXIST\<close> (17) and \<^verbatim>\<open>perror\<close>, which cannot write its message,
  leaves \<^verbatim>\<open>errno\<close> at 22: the route stays uninstalled, where it is to become installed.
  With a \<^verbatim>\<open>perror\<close> that leaves \<^verbatim>\<open>errno\<close> as it is, the same answer of the kernel installs the
  route.
\<close>

theorem install_route_errno:
  "\<not> installed (routes example_state ! 0) \<and>
   kernel_reply (example_env\<lparr>kernel_reply := (\<lambda>n. (- 1, EEXIST)), perror := (\<lambda>err. 22)\<rparr>) 0 =
     (- 1, EEXIST) \<and>
   routes (install_route
       (example_env\<lparr>kernel_reply := (\<lambda>n. (- 1, EEXIST)), perror := (\<lambda>err. 22)\<rparr>) 0
       example_state) = [example_route] \<and>
   \<not> installed (routes (install_route
       (example_env\<lparr>kernel_reply := (\<lambda>n. (- 1, EEXIST)), perror := (\<lambda>err. 22)\<rparr>) 0
       example_state) ! 0) \<and>
   klog (install_route
       (example_env\<lparr>kernel_reply := (\<lambda>n. (- 1, EEXIST)), perror := (\<lambda>err. 22)\<rparr>) 0
       example_state) = [KernelRoute ROUTE_ADD 32 64 7 1 1 None 0 0] \<and>
   routes (install_route (example_env\<lparr>kernel_reply := (\<lambda>n. (- 1, EEXIST))\<rparr>) 0 example_state) =
     [example_route\<lparr>installed := True\<rparr>]"
  by (simp add: example_defs eval_defs)

subsection \<open>The best route (C9)\<close>

text \<open>
  Claim C9. \<^verbatim>\<open>find_best_route\<close> returns none exactly when no route of the table is left
  after the skipping; otherwise it returns the index of a route that is not skipped, whose
  metric is minimal among the routes not skipped, and which is the first in scan order among
  those of minimal metric.
\<close>

theorem find_best_route_minimal:
  "(find_best_route e p pl feasible exclude s = None \<longleftrightarrow>
      (\<forall>i<numroutes s. \<not> route_candidate e p pl feasible exclude s i)) \<and>
   (\<forall>b. find_best_route e p pl feasible exclude s = Some b \<longrightarrow>
      b < numroutes s \<and> route_candidate e p pl feasible exclude s b \<and>
      (\<forall>j<numroutes s. route_candidate e p pl feasible exclude s j \<longrightarrow>
         metric (routes s ! b) \<le> metric (routes s ! j) \<and>
         (metric (routes s ! j) = metric (routes s ! b) \<longrightarrow> b \<le> j)))"
  unfolding find_best_route_def by (rule find_best_route_fold)

theorem find_best_route_minimal_witness:
  "find_best_route (example_env\<lparr>MAXROUTES := 4\<rparr>) 32 64 True None example_table = Some 2 \<and>
   route_candidate (example_env\<lparr>MAXROUTES := 4\<rparr>) 32 64 True None example_table 3 \<and>
   \<not> route_candidate (example_env\<lparr>MAXROUTES := 4\<rparr>) 32 64 True None example_table 0 \<and>
   find_best_route (example_env\<lparr>MAXROUTES := 4\<rparr>) 32 64 True (Some 2) example_table = Some 3 \<and>
   find_best_route (example_env\<lparr>MAXROUTES := 4\<rparr>) 33 64 True None example_table = None"
  using find_best_route_minimal [of "example_env\<lparr>MAXROUTES := 4\<rparr>" 32 64 True None example_table]
  by (simp add: example_defs example_table_def eval_defs route_candidate_def)

subsection \<open>Unfeasible updates of an unknown source (C10)\<close>

text \<open>
  Claim C10. When the source table has no entry for \<open>(origin, prefix, plen)\<close>,
  \<^verbatim>\<open>send_unfeasible_request\<close> sends nothing and changes nothing, also when no route is
  installed for the prefix.
\<close>

theorem unknown_source_no_request:
  "fst (find_source e a p pl False 0 s) = None \<Longrightarrow> send_unfeasible_request e m a p pl s = s"
  by (simp add: send_unfeasible_request_def Let_def)

theorem unknown_source_no_request_witness:
  "fst (find_source example_env 9 32 64 False 0 example_state) = None \<and>
   find_installed_route 32 64 example_state = None \<and>
   msgs (send_unfeasible_request example_env 100 9 32 64 example_state) = []"
  using unknown_source_no_request [of example_env 9 32 64 example_state 100]
  by (simp add: example_defs eval_defs)

end
